theory Spec2Isabelle
  imports Main "HOL-Library.Word"
begin

section \<open>Library functions that main.go calls\<close>

text \<open>
  Go strings are byte strings; they are modelled as \<open>string\<close> (a list of 8-bit
  characters). The functions of this section belong to the Go standard library and to
  the DNS library (github.com/miekg/dns), not to main.go; each is written after the
  library's own code.
\<close>

text \<open>
  The strings of ASCII bytes. On them a byte is a rune, and the byte-wise definitions of
  \<^verbatim>\<open>strings.ToLower\<close> and \<^verbatim>\<open>strings.LastIndexFunc\<close> below are the library's functions.
  On other strings Go decodes UTF-8: \<^verbatim>\<open>ToLower\<close> lower-cases by Unicode rules and
  \<^verbatim>\<open>LastIndexFunc\<close> returns the index at which a rune starts. The definitions below
  do not follow Go there, and the theorem on the match of a key (claim C5) is stated
  for ASCII names and keys. The DNS library renders every byte of a query name outside
  printable ASCII as an escape \<^verbatim>\<open>\DDD\<close>, so the names of the questions are ASCII.
\<close>

definition isASCII :: "string \<Rightarrow> bool" where
  "isASCII s = list_all (\<lambda>c. (of_char c :: nat) < 128) s"

text \<open>
  \<^verbatim>\<open>strings.ToLower\<close> on a string of ASCII bytes: \<^verbatim>\<open>if 'A' <= c && c <= 'Z' { c += 'a' - 'A' }\<close>.
\<close>

definition lowerByte :: "char \<Rightarrow> char" where
  "lowerByte c =
     (if 65 \<le> (of_char c :: nat) \<and> (of_char c :: nat) \<le> 90
      then char_of ((of_char c :: nat) + 32) else c)"

definition ToLower :: "string \<Rightarrow> string" where
  "ToLower s = map lowerByte s"

text \<open>\<^verbatim>\<open>strings.HasSuffix\<close>: \<^verbatim>\<open>len(s) >= len(suffix) && s[len(s)-len(suffix):] == suffix\<close>.\<close>

definition HasSuffix :: "string \<Rightarrow> string \<Rightarrow> bool" where
  "HasSuffix s suffix =
     (length suffix \<le> length s \<and> drop (length s - length suffix) s = suffix)"

text \<open>\<^verbatim>\<open>strings.TrimSuffix\<close>: \<^verbatim>\<open>if HasSuffix(s, suffix) { return s[:len(s)-len(suffix)] }; return s\<close>.\<close>

definition TrimSuffix :: "string \<Rightarrow> string \<Rightarrow> string" where
  "TrimSuffix s suffix =
     (if HasSuffix s suffix then take (length s - length suffix) s else s)"

text \<open>
  \<^verbatim>\<open>strings.LastIndexFunc\<close> on a string of ASCII bytes: the index of the last byte
  satisfying \<open>f\<close>, or \<open>-1\<close>.
\<close>

definition LastIndexFunc :: "string \<Rightarrow> (char \<Rightarrow> bool) \<Rightarrow> int" where
  "LastIndexFunc s f =
     int (length s) - 1 - int (length (takeWhile (\<lambda>c. \<not> f c) (rev s)))"

text \<open>
  \<^verbatim>\<open>dns.IsFqdn\<close> and \<^verbatim>\<open>dns.Fqdn\<close>: a name is fully qualified when it ends in a dot that
  is not escaped by a backslash (byte 0x5C); \<^verbatim>\<open>Fqdn\<close> appends a dot to any other name.
  \<^verbatim>\<open>IsFqdn\<close> calls \<^verbatim>\<open>strings.LastIndexFunc\<close>, so it too is the library's function on
  ASCII strings.
\<close>

definition IsFqdn :: "string \<Rightarrow> bool" where
  "IsFqdn s =
     (if s = [] \<or> last s \<noteq> CHR ''.'' then False
      else let s' = butlast s in
        if s' = [] \<or> last s' \<noteq> CHR 0x5C then True
        else (int (length s') - LastIndexFunc s' (\<lambda>r. r \<noteq> CHR 0x5C)) mod 2 \<noteq> 0)"

definition Fqdn :: "string \<Rightarrow> string" where
  "Fqdn s = (if IsFqdn s then s else s @ ''.'')"

text \<open>
  \<^verbatim>\<open>net.IP\<close> is a byte slice. \<^verbatim>\<open>net.ParseIP\<close> is a parameter of the model (field
  \<open>ParseIP\<close> of the environment below): \<open>None\<close> is Go's \<^verbatim>\<open>nil\<close>. \<^verbatim>\<open>IP.To4\<close> is
  written out: a 4-byte address is returned as it is, a 16-byte address with the
  prefix \<^verbatim>\<open>0:0:0:0:0:ffff\<close> yields its last four bytes, anything else \<^verbatim>\<open>nil\<close>.
\<close>

type_synonym IP = "8 word list"

definition isZeros :: "IP \<Rightarrow> bool" where
  "isZeros p = list_all (\<lambda>b. b = 0) p"

definition To4 :: "IP \<Rightarrow> IP option" where
  "To4 ip =
     (if length ip = 4 then Some ip
      else if length ip = 16 \<and> isZeros (take 10 ip) \<and> ip ! 10 = 0xff \<and> ip ! 11 = 0xff
      then Some (drop 12 ip)
      else None)"

section \<open>DNS messages\<close>

text \<open>
  The message types of the DNS library, with the fields main.go and the library
  functions it calls read or write.
\<close>

record Question =
  Name :: string
  Qtype :: "16 word"
  Qclass :: "16 word"

record RR_Header =
  Name :: string
  Rrtype :: "16 word"
  Class :: "16 word"
  Ttl :: "32 word"
  Rdlength :: "16 word"

text \<open>
  A resource record: the three kinds main.go builds, any other kind an upstream reply
  may carry, and Go's \<^verbatim>\<open>nil\<close> (the content of a freshly made answer slice).
\<close>

datatype RR =
    RR_nil
  | RR_A RR_Header IP
  | RR_AAAA RR_Header IP
  | RR_CNAME RR_Header string
  | RR_other RR_Header "8 word list"

definition TypeA :: "16 word" where "TypeA = 1"
definition TypeCNAME :: "16 word" where "TypeCNAME = 5"
definition TypeAAAA :: "16 word" where "TypeAAAA = 28"
definition ClassINET :: "16 word" where "ClassINET = 1"

definition RcodeSuccess :: int where "RcodeSuccess = 0"
definition RcodeServerFailure :: int where "RcodeServerFailure = 2"
definition OpcodeQuery :: int where "OpcodeQuery = 0"

record Msg =
  MsgId :: "16 word"
  Response :: bool
  Opcode :: int
  Authoritative :: bool
  Truncated :: bool
  RecursionDesired :: bool
  RecursionAvailable :: bool
  Zero :: bool
  AuthenticatedData :: bool
  CheckingDisabled :: bool
  Rcode :: int
  Compress :: bool
  Question :: "Question list"
  Answer :: "RR list"
  Ns :: "RR list"
  Extra :: "RR list"

text \<open>\<^verbatim>\<open>new(dns.Msg)\<close>: every field has its zero value.\<close>

definition new_Msg :: Msg where
  "new_Msg = \<lparr>MsgId = 0, Response = False, Opcode = 0, Authoritative = False,
     Truncated = False, RecursionDesired = False, RecursionAvailable = False,
     Zero = False, AuthenticatedData = False, CheckingDisabled = False, Rcode = 0,
     Compress = False, Question = [], Answer = [], Ns = [], Extra = []\<rparr>"

text \<open>
  \<^verbatim>\<open>Msg.SetReply\<close> of the DNS library copies the id, the opcode and (for a standard
  query) the RD and CD bits, marks the message a response with success status, and
  copies the first question when there is one. \<^verbatim>\<open>Msg.SetRcode\<close> is \<^verbatim>\<open>SetReply\<close>
  followed by the assignment of the status.
\<close>

definition SetReply :: "Msg \<Rightarrow> Msg \<Rightarrow> Msg" where
  "SetReply m request =
     m\<lparr>MsgId := MsgId request,
       Response := True,
       Opcode := Opcode request,
       RecursionDesired :=
         (if Opcode request = OpcodeQuery then RecursionDesired request
          else RecursionDesired m),
       CheckingDisabled :=
         (if Opcode request = OpcodeQuery then CheckingDisabled request
          else CheckingDisabled m),
       Rcode := RcodeSuccess,
       Question :=
         (if 0 < length (Question request) then [Question request ! 0]
          else Question m)\<rparr>"

definition SetRcode :: "Msg \<Rightarrow> Msg \<Rightarrow> int \<Rightarrow> Msg" where
  "SetRcode m request rcode = (SetReply m request)\<lparr>Rcode := rcode\<rparr>"

section \<open>Configuration (main.go, lines 21-48)\<close>

record MadnsRebindConfig =
  Addrs :: "string list"

record MadnsSubConfig =
  Redirect :: string
  NotifyEmail :: string
  Respond :: string
  NotifySlack :: string
  Rebind :: "MadnsRebindConfig option"

text \<open>
  \<open>Handlers\<close> is a Go map. It is modelled as the list of its entries in the order in
  which the \<^verbatim>\<open>range\<close> loop of the call at hand visits them (Go leaves that order
  open, so the theorems below hold for every order); \<^verbatim>\<open>config.Handlers["."]\<close> is
  \<open>map_of\<close> on that list.
\<close>

record MadnsConfig =
  SMTPUser :: string
  SMTPPassword :: string
  SMTPServer :: string
  SMTPDelay :: int
  Port :: int
  Handlers :: "(string \<times> MadnsSubConfig) list"

section \<open>The world a handler acts on\<close>

text \<open>
  The address of the client: \<^verbatim>\<open>w.RemoteAddr()\<close> is a \<^verbatim>\<open>*net.TCPAddr\<close> on the stream
  listener and a \<^verbatim>\<open>*net.UDPAddr\<close> on the datagram listener; the string is its
  rendering (\<^verbatim>\<open>String()\<close>).
\<close>

datatype Addr = TCPAddr string | UDPAddr string

fun Network :: "Addr \<Rightarrow> string" where
  "Network (TCPAddr _) = ''tcp''"
| "Network (UDPAddr _) = ''udp''"

fun String :: "Addr \<Rightarrow> string" where
  "String (TCPAddr a) = a"
| "String (UDPAddr a) = a"

record ResponseWriter =
  RemoteAddr :: Addr

datatype level = Debug | Info | Warn | Error

text \<open>
  What a handler does to the outside, in order: a log line, a message written to a
  client, a call of \<^verbatim>\<open>debouncedSendEmail\<close> (destination, body) and a call of
  \<^verbatim>\<open>sendSlackMessage\<close> (destination, body). The two notification functions are
  defined outside main.go; the model records that they are called and with what.
\<close>

datatype event =
    Log level string
  | WriteMsg ResponseWriter Msg
  | debouncedSendEmail string string
  | sendSlackMessage string string

text \<open>
  The state: the events so far, the global \<^verbatim>\<open>RebindMap\<close> (a counter of type
  \<^verbatim>\<open>atomic.Uint64\<close> per key) and the number of upstream exchanges made so far.
\<close>

record world =
  trace :: "event list"
  RebindMap :: "string \<rightharpoonup> 64 word"
  exchanges :: nat

definition emit :: "event \<Rightarrow> world \<Rightarrow> world" where
  "emit ev s = s\<lparr>trace := trace s @ [ev]\<rparr>"

text \<open>
  What the handlers take from outside main.go: \<^verbatim>\<open>net.ParseIP\<close>; the upstream, as the
  outcome of \<^verbatim>\<open>dnsClient.Exchange(req, redirect)\<close> for the exchange with a given
  number, protocol, request and address (\<open>Inl\<close> is the error, \<open>Inr\<close> the reply);
  \<^verbatim>\<open>req.String()\<close>; and the quoting that \<^verbatim>\<open>fmt.Sprintf("%q", err)\<close> applies.
\<close>

record env =
  ParseIP :: "string \<Rightarrow> IP option"
  Exchange :: "nat \<Rightarrow> string \<Rightarrow> Msg \<Rightarrow> string \<Rightarrow> string + Msg"
  MsgString :: "Msg \<Rightarrow> string"
  Quote :: "string \<Rightarrow> string"

datatype error = IndexOutOfRange

text \<open>Indexing a slice: Go panics when the index is out of range.\<close>

definition index :: "'a list \<Rightarrow> nat \<Rightarrow> error + 'a" where
  "index xs i = (if i < length xs then Inr (xs ! i) else Inl IndexOutOfRange)"

section \<open>handleRespond (main.go, lines 199-233)\<close>

text \<open>
  The body of the loop for one question (lines 208-230): the record built from the
  literal \<open>respond\<close>. Every header is
  \<^verbatim>\<open>RR_Header{Name: req.Question[i].Name, Rrtype: ..., Class: dns.ClassINET, Ttl: 0}\<close>.
\<close>

definition respond_rr :: "env \<Rightarrow> Question \<Rightarrow> string \<Rightarrow> RR" where
  "respond_rr e q respond =
     (case ParseIP e respond of
        None \<Rightarrow>
          RR_CNAME \<lparr>RR_Header.Name = Question.Name q, Rrtype = TypeCNAME,
                     Class = ClassINET, Ttl = 0, Rdlength = 0\<rparr>
                   (TrimSuffix respond ''.'' @ ''.'')
      | Some ip \<Rightarrow>
          (case To4 ip of
             None \<Rightarrow>
               RR_AAAA \<lparr>RR_Header.Name = Question.Name q, Rrtype = TypeAAAA,
                          Class = ClassINET, Ttl = 0, Rdlength = 0\<rparr> ip
           | Some _ \<Rightarrow>
               RR_A \<lparr>RR_Header.Name = Question.Name q, Rrtype = TypeA,
                       Class = ClassINET, Ttl = 0, Rdlength = 0\<rparr> ip))"

text \<open>
  The loop \<^verbatim>\<open>for i := range req.Question\<close> over the indices still to visit: it logs
  and stores the record at \<^verbatim>\<open>m.Answer[i]\<close>.
\<close>

definition respond_log :: "Msg \<Rightarrow> string \<Rightarrow> nat \<Rightarrow> event" where
  "respond_log req respond i =
     Log Info (''Responding to '' @ Question.Name (Question req ! i) @ '' with '' @ respond)"

fun respond_loop ::
  "env \<Rightarrow> Msg \<Rightarrow> string \<Rightarrow> nat list \<Rightarrow> Msg \<times> world \<Rightarrow> Msg \<times> world" where
  "respond_loop e req respond [] (m, s) = (m, s)"
| "respond_loop e req respond (i # is) (m, s) =
     respond_loop e req respond is
       (m\<lparr>Answer := (Answer m)[i := respond_rr e (Question req ! i) respond]\<rparr>,
        emit (respond_log req respond i) s)"

definition handleRespond ::
  "env \<Rightarrow> ResponseWriter \<Rightarrow> Msg \<Rightarrow> string \<Rightarrow> world \<Rightarrow> world" where
  "handleRespond e w req respond s =
     (let m = SetRcode (SetReply new_Msg req) req RcodeSuccess;
          m = m\<lparr>Answer := replicate (length (Question req)) RR_nil\<rparr>;
          (m, s) = respond_loop e req respond [0..<length (Question req)] (m, s)
      in emit (WriteMsg w m) s)"

section \<open>handleRedirect (main.go, lines 170-197)\<close>

text \<open>
  Lines 171-174: the protocol of the client, \<^verbatim>\<open>"tcp"\<close> when the remote address is a
  \<^verbatim>\<open>*net.TCPAddr\<close> and \<^verbatim>\<open>"udp"\<close> otherwise.
\<close>

definition client_net :: "ResponseWriter \<Rightarrow> string" where
  "client_net w = (case RemoteAddr w of TCPAddr _ \<Rightarrow> ''tcp'' | UDPAddr _ \<Rightarrow> ''udp'')"

text \<open>
  The code from the label \<^verbatim>\<open>retry:\<close> on, with the value of \<^verbatim>\<open>retries\<close> at the label.
\<close>

fun retry ::
  "env \<Rightarrow> ResponseWriter \<Rightarrow> string \<Rightarrow> Msg \<Rightarrow> string \<Rightarrow> nat \<Rightarrow> world \<Rightarrow> world" where
  "retry e w net req redirect retries s =
     (case Exchange e (exchanges s) net req redirect of
        Inr r \<Rightarrow>
          emit (WriteMsg w (r\<lparr>Compress := True\<rparr>)) (s\<lparr>exchanges := Suc (exchanges s)\<rparr>)
      | Inl err \<Rightarrow>
          (if 0 < retries
           then retry e w net req redirect (retries - 1)
                  (emit (Log Debug ''retrying...'') (s\<lparr>exchanges := Suc (exchanges s)\<rparr>))
           else emit (WriteMsg w (SetRcode (SetReply new_Msg req) req RcodeServerFailure))
                  (emit (Log Warn (''failure to forward request '' @ Quote e err @ [CHR 0x0A]))
                     (s\<lparr>exchanges := Suc (exchanges s)\<rparr>))))"

definition handleRedirect ::
  "env \<Rightarrow> ResponseWriter \<Rightarrow> Msg \<Rightarrow> string \<Rightarrow> world \<Rightarrow> world" where
  "handleRedirect e w req redirect s =
     (let net = client_net w
      in retry e w net req redirect 1
           (emit (Log Info (''redirecting using protocol: '' @ net)) s))"

section \<open>handleDNS (main.go, lines 103-168)\<close>

text \<open>
  Lines 113-116: the test of one key \<open>k\<close> against the name of the first question.
\<close>

definition key_matches :: "string \<Rightarrow> string \<Rightarrow> bool" where
  "key_matches name k =
     (let reqFqdn = ToLower name;
          handlerFqdn = ToLower (Fqdn k)
      in reqFqdn = handlerFqdn \<or> HasSuffix reqFqdn (''.'' @ handlerFqdn))"

text \<open>
  Lines 109-122: the loop over the entries of \<open>Handlers\<close>. It skips the key \<^verbatim>\<open>"."\<close>,
  reads \<^verbatim>\<open>req.Question[0]\<close> at every other key, and stops at the first key that
  matches. \<open>Inr None\<close>: the loop ended with \<^verbatim>\<open>processThis\<close> still false.
\<close>

fun range_Handlers ::
  "(string \<times> MadnsSubConfig) list \<Rightarrow> Msg \<Rightarrow> error + (string \<times> MadnsSubConfig) option" where
  "range_Handlers [] req = Inr None"
| "range_Handlers ((k, v) # kvs) req =
     (if k = ''.'' then range_Handlers kvs req
      else (case index (Question req) 0 of
              Inl err \<Rightarrow> Inl err
            | Inr q \<Rightarrow>
                if key_matches (Question.Name q) k then Inr (Some (k, v))
                else range_Handlers kvs req))"

text \<open>Lines 105-130: the loop, then the default handler when the loop found none.\<close>

definition select_handler ::
  "MadnsConfig \<Rightarrow> Msg \<Rightarrow> error + (string \<times> MadnsSubConfig) option" where
  "select_handler config req =
     (case range_Handlers (Handlers config) req of
        Inl err \<Rightarrow> Inl err
      | Inr (Some kv) \<Rightarrow> Inr (Some kv)
      | Inr None \<Rightarrow>
          (case map_of (Handlers config) ''.'' of
             Some cnf \<Rightarrow> Inr (Some (''.'', cnf))
           | None \<Rightarrow> Inr None))"

text \<open>
  Lines 140-153: the action of the policy \<open>c\<close> selected under the key \<open>ck\<close>. In the
  rebind branch \<^verbatim>\<open>LoadOrStore\<close> yields the counter of \<open>ck\<close> (a new one holds 0),
  \<^verbatim>\<open>ctr.Add(1)\<close> stores and returns the incremented value, and the index is
  \<^verbatim>\<open>(ctr.Add(1) - 1) % uint64(len(rc.Addrs))\<close> in 64-bit unsigned arithmetic (the
  length of a slice fits 64 bits). The branch is guarded by \<^verbatim>\<open>len(rc.Addrs) > 0\<close>.
  \<open>counter\<close> is the value of the counter that \<^verbatim>\<open>LoadOrStore\<close> yields for a key.
\<close>

definition counter :: "world \<Rightarrow> string \<Rightarrow> 64 word" where
  "counter s ck = (case RebindMap s ck of None \<Rightarrow> 0 | Some n \<Rightarrow> n)"

definition action ::
  "env \<Rightarrow> ResponseWriter \<Rightarrow> Msg \<Rightarrow> string \<Rightarrow> MadnsSubConfig \<Rightarrow> world \<Rightarrow> error + world" where
  "action e w req ck c s =
     (if 0 < length (Redirect c) then Inr (handleRedirect e w req (Redirect c) s)
      else if 0 < length (Respond c) then Inr (handleRespond e w req (Respond c) s)
      else (case Rebind c of
              None \<Rightarrow> Inr s
            | Some rc \<Rightarrow>
                if 0 < length (Addrs rc) then
                  (let new = counter s ck + 1;
                       s = s\<lparr>RebindMap := (RebindMap s)(ck \<mapsto> new)\<rparr>
                   in case index (Addrs rc) (unat (new - 1) mod length (Addrs rc)) of
                        Inl err \<Rightarrow> Inl err
                      | Inr respond \<Rightarrow> Inr (handleRespond e w req respond s))
                else Inr s))"

text \<open>Lines 155-167: the body of the notification and the two notifications.\<close>

definition notify_body :: "env \<Rightarrow> ResponseWriter \<Rightarrow> Msg \<Rightarrow> string" where
  "notify_body e w req =
     ''source: '' @ String (RemoteAddr w) @ [CHR 0x0A] @
     ''proto: '' @ Network (RemoteAddr w) @ [CHR 0x0A] @
     ''request:'' @ [CHR 0x0A] @ MsgString e req @ [CHR 0x0A, CHR 0x0A]"

definition notify ::
  "env \<Rightarrow> ResponseWriter \<Rightarrow> Msg \<Rightarrow> MadnsSubConfig \<Rightarrow> world \<Rightarrow> world" where
  "notify e w req c s =
     (let body = notify_body e w req;
          s = (if 0 < length (NotifyEmail c)
               then emit (debouncedSendEmail (NotifyEmail c) body) s else s)
      in if 0 < length (NotifySlack c)
         then emit (sendSlackMessage (NotifySlack c) body) s else s)"

definition handleDNS ::
  "env \<Rightarrow> ResponseWriter \<Rightarrow> Msg \<Rightarrow> MadnsConfig \<Rightarrow> world \<Rightarrow> error + world" where
  "handleDNS e w req config s =
     (case select_handler config req of
        Inl err \<Rightarrow> Inl err
      | Inr None \<Rightarrow>
          (case index (Question req) 0 of
             Inl err \<Rightarrow> Inl err
           | Inr q \<Rightarrow>
               Inr (emit (WriteMsg w (SetRcode (SetReply new_Msg req) req RcodeServerFailure))
                      (emit (Log Warn (''no handler for domain: '' @ Question.Name q)) s)))
      | Inr (Some (ck, c)) \<Rightarrow>
          (case action e w req ck c s of
             Inl err \<Rightarrow> Inl err
           | Inr s \<Rightarrow> Inr (notify e w req c s)))"

section \<open>Observations and runs\<close>

text \<open>The messages written to clients so far, each with the writer it went to.\<close>

fun written :: "event \<Rightarrow> (ResponseWriter \<times> Msg) list" where
  "written (WriteMsg w m) = [(w, m)]"
| "written _ = []"

definition replies :: "world \<Rightarrow> (ResponseWriter \<times> Msg) list" where
  "replies s = concat (map written (trace s))"

text \<open>
  The message \<open>handleRespond\<close> writes, in closed form (lemma \<open>handleRespond_eq\<close> below
  proves that it is): the reply header with success status and one record per question.
\<close>

definition respond_Msg :: "env \<Rightarrow> Msg \<Rightarrow> string \<Rightarrow> Msg" where
  "respond_Msg e req respond =
     (SetRcode (SetReply new_Msg req) req RcodeSuccess)
       \<lparr>Answer := map (\<lambda>q. respond_rr e q respond) (Question req)\<rparr>"

text \<open>The message written on the two failure paths (lines 133-135 and 191-193).\<close>

definition servfail_Msg :: "Msg \<Rightarrow> Msg" where
  "servfail_Msg req = SetRcode (SetReply new_Msg req) req RcodeServerFailure"

text \<open>
  Sequential dispatches: \<open>handleDNS\<close> is run on each call of the list in turn (writer,
  query and the configuration in the order its loop visits it), each on the world the
  previous one left; a panic ends the run.
\<close>

fun dispatches ::
  "env \<Rightarrow> (ResponseWriter \<times> Msg \<times> MadnsConfig) list \<Rightarrow> world \<Rightarrow> error + world" where
  "dispatches e [] s = Inr s"
| "dispatches e ((w, req, config) # calls) s =
     (case handleDNS e w req config s of
        Inl err \<Rightarrow> Inl err
      | Inr s' \<Rightarrow> dispatches e calls s')"

text \<open>The answer sections of the replies of a run, in the order they were written.\<close>

fun answers :: "error + world \<Rightarrow> RR list list" where
  "answers (Inl err) = []"
| "answers (Inr s) = map (\<lambda>(w, m). Answer m) (replies s)"

section \<open>Concrete inputs for the examples\<close>

text \<open>
  \<^verbatim>\<open>net.IPv4(a, b, c, d)\<close>: the 16-byte form of an IPv4 address, which is what
  \<^verbatim>\<open>net.ParseIP\<close> returns for a dotted-decimal literal.
\<close>

definition IPv4 :: "8 word \<Rightarrow> 8 word \<Rightarrow> 8 word \<Rightarrow> 8 word \<Rightarrow> IP" where
  "IPv4 a b c d = [0, 0, 0, 0, 0, 0, 0, 0, 0, 0, 0xff, 0xff, a, b, c, d]"

text \<open>
  \<^verbatim>\<open>net.ParseIP\<close> on the literals of the examples; every other string the examples
  use (\<^verbatim>\<open>cname.example.org\<close>, \<^verbatim>\<open>foo..\<close>) is no IP address.
\<close>

definition example_ParseIP :: "string \<Rightarrow> IP option" where
  "example_ParseIP = map_of
     [(''10.0.0.1'', IPv4 10 0 0 1),
      (''10.0.0.2'', IPv4 10 0 0 2),
      (''10.0.0.3'', IPv4 10 0 0 3),
      (''203.0.113.5'', IPv4 203 0 113 5),
      (''2001:db8::1'', [0x20, 0x01, 0x0d, 0xb8, 0, 0, 0, 0, 0, 0, 0, 0, 0, 0, 0, 1])]"

text \<open>
  An environment whose upstream gives the outcomes of \<open>script\<close>, one per exchange, and
  times out afterwards; the two renderings are left empty.
\<close>

definition example_env :: "(string + Msg) list \<Rightarrow> env" where
  "example_env script =
     \<lparr>ParseIP = example_ParseIP,
      Exchange = (\<lambda>n net req addr. if n < length script then script ! n else Inl ''i/o timeout''),
      MsgString = (\<lambda>m. []),
      Quote = (\<lambda>x. x)\<rparr>"

definition example_writer :: ResponseWriter where
  "example_writer = \<lparr>RemoteAddr = UDPAddr ''192.0.2.7:5353''\<rparr>"

definition example_query :: "string list \<Rightarrow> Msg" where
  "example_query names =
     new_Msg\<lparr>MsgId := 7, RecursionDesired := True,
       Question := map (\<lambda>n. \<lparr>Question.Name = n, Qtype = 1, Qclass = 1\<rparr>) names\<rparr>"

definition example_policy :: MadnsSubConfig where
  "example_policy =
     \<lparr>Redirect = [], NotifyEmail = [], Respond = [], NotifySlack = [], Rebind = None\<rparr>"

definition example_config :: "(string \<times> MadnsSubConfig) list \<Rightarrow> MadnsConfig" where
  "example_config hs =
     \<lparr>SMTPUser = [], SMTPPassword = [], SMTPServer = [], SMTPDelay = 0, Port = 53,
      Handlers = hs\<rparr>"

definition example_upstream_reply :: Msg where
  "example_upstream_reply =
     new_Msg\<lparr>MsgId := 7, Response := True, RecursionDesired := True,
       RecursionAvailable := True,
       Question := [\<lparr>Question.Name = ''www.example.com.'', Qtype = 1, Qclass = 1\<rparr>],
       Answer := [RR_A \<lparr>RR_Header.Name = ''www.example.com.'', Rrtype = TypeA,
                          Class = ClassINET, Ttl = 300, Rdlength = 4\<rparr>
                       (IPv4 93 184 216 34)]\<rparr>"

definition example_world :: world where
  "example_world = \<lparr>trace = [], RebindMap = Map.empty, exchanges = 0\<rparr>"

section \<open>Auxiliary facts\<close>

subsection \<open>Events\<close>

lemma trace_emit: "trace (emit ev s) = trace s @ [ev]"
  by (simp add: emit_def)
lemma RebindMap_emit: "RebindMap (emit ev s) = RebindMap s"
  by (simp add: emit_def)
lemma exchanges_emit: "exchanges (emit ev s) = exchanges s"
  by (simp add: emit_def)

lemma replies_emit_WriteMsg: "replies (emit (WriteMsg w m) s) = replies s @ [(w, m)]"
  by (simp add: replies_def emit_def)
lemma replies_emit_Log: "replies (emit (Log l x) s) = replies s"
  by (simp add: replies_def emit_def)
lemma replies_emit_email: "replies (emit (debouncedSendEmail d b) s) = replies s"
  by (simp add: replies_def emit_def)
lemma replies_emit_slack: "replies (emit (sendSlackMessage d b) s) = replies s"
  by (simp add: replies_def emit_def)

lemmas emit_simps = trace_emit RebindMap_emit exchanges_emit replies_emit_WriteMsg
  replies_emit_Log replies_emit_email replies_emit_slack

subsection \<open>handleRespond in closed form\<close>

lemma respond_loop_fst:
  "fst (respond_loop e req respond is (m, s)) =
     m\<lparr>Answer := fold (\<lambda>i a. a[i := respond_rr e (Question req ! i) respond]) is (Answer m)\<rparr>"
  by (induction "is" arbitrary: m s) simp_all

lemma respond_loop_snd:
  "snd (respond_loop e req respond is (m, s)) =
     s\<lparr>trace := trace s @ map (respond_log req respond) is\<rparr>"
  by (induction "is" arbitrary: m s) (simp_all add: emit_def)

lemma fold_update_upt:
  "length a = length qs \<Longrightarrow> k \<le> length qs \<Longrightarrow>
   fold (\<lambda>i a. a[i := f (qs ! i)]) [k..<length qs] a = take k a @ map f (drop k qs)"
proof (induction "length qs - k" arbitrary: k a)
  case 0
  then show ?case by simp
next
  case (Suc d)
  then have k: "k < length qs" by simp
  have "fold (\<lambda>i a. a[i := f (qs ! i)]) [k..<length qs] a =
        fold (\<lambda>i a. a[i := f (qs ! i)]) [Suc k..<length qs] (a[k := f (qs ! k)])"
    using k by (simp add: upt_conv_Cons)
  also have "\<dots> = take (Suc k) (a[k := f (qs ! k)]) @ map f (drop (Suc k) qs)"
    using Suc k by (intro Suc.hyps(1)) simp_all
  also have "take (Suc k) (a[k := f (qs ! k)]) = take k a @ [f (qs ! k)]"
    using k Suc.prems by (simp add: take_Suc_conv_app_nth)
  also have "(take k a @ [f (qs ! k)]) @ map f (drop (Suc k) qs) = take k a @ map f (drop k qs)"
    using k by (simp add: Cons_nth_drop_Suc[symmetric])
  finally show ?case .
qed

lemma handleRespond_eq:
  "handleRespond e w req respond s =
     emit (WriteMsg w (respond_Msg e req respond))
       (s\<lparr>trace := trace s @ map (respond_log req respond) [0..<length (Question req)]\<rparr>)"
proof -
  let ?m = "(SetRcode (SetReply new_Msg req) req RcodeSuccess)
              \<lparr>Answer := replicate (length (Question req)) RR_nil\<rparr>"
  let ?r = "respond_loop e req respond [0..<length (Question req)] (?m, s)"
  have "fst ?r = respond_Msg e req respond"
    using fold_update_upt[of "replicate (length (Question req)) RR_nil" "Question req" 0
        "\<lambda>q. respond_rr e q respond"]
    by (simp add: respond_loop_fst respond_Msg_def)
  moreover have "snd ?r = s\<lparr>trace := trace s @ map (respond_log req respond) [0..<length (Question req)]\<rparr>"
    by (simp add: respond_loop_snd)
  ultimately show ?thesis
    by (simp add: handleRespond_def Let_def split_beta)
qed

lemma replies_handleRespond:
  "replies (handleRespond e w req respond s) = replies s @ [(w, respond_Msg e req respond)]"
  by (simp add: handleRespond_eq replies_def emit_def respond_log_def comp_def)

lemma RebindMap_handleRespond: "RebindMap (handleRespond e w req respond s) = RebindMap s"
  by (simp add: handleRespond_eq emit_def)

lemma exchanges_handleRespond: "exchanges (handleRespond e w req respond s) = exchanges s"
  by (simp add: handleRespond_eq emit_def)

lemma replies_notify: "replies (notify e w req c s) = replies s"
  by (simp add: notify_def Let_def emit_simps)
lemma RebindMap_notify: "RebindMap (notify e w req c s) = RebindMap s"
  by (simp add: notify_def Let_def emit_simps)
lemma exchanges_notify: "exchanges (notify e w req c s) = exchanges s"
  by (simp add: notify_def Let_def emit_simps)

subsection \<open>The three outcomes of handleRedirect\<close>

declare retry.simps [simp del]

lemma retry_success:
  "Exchange e (exchanges s) net req redirect = Inr r \<Longrightarrow>
   retry e w net req redirect retries s =
     emit (WriteMsg w (r\<lparr>Compress := True\<rparr>)) (s\<lparr>exchanges := Suc (exchanges s)\<rparr>)"
  by (subst retry.simps) simp

lemma retry_again:
  "Exchange e (exchanges s) net req redirect = Inl err \<Longrightarrow> 0 < retries \<Longrightarrow>
   retry e w net req redirect retries s =
     retry e w net req redirect (retries - 1)
       (emit (Log Debug ''retrying...'') (s\<lparr>exchanges := Suc (exchanges s)\<rparr>))"
  by (subst retry.simps) simp

lemma retry_exhausted:
  "Exchange e (exchanges s) net req redirect = Inl err \<Longrightarrow>
   retry e w net req redirect 0 s =
     emit (WriteMsg w (servfail_Msg req))
       (emit (Log Warn (''failure to forward request '' @ Quote e err @ [CHR 0x0A]))
          (s\<lparr>exchanges := Suc (exchanges s)\<rparr>))"
  by (subst retry.simps) (simp add: servfail_Msg_def)

lemma handleRedirect_first:
  assumes "Exchange e (exchanges s) (client_net w) req redirect = Inr r"
  shows "replies (handleRedirect e w req redirect s) = replies s @ [(w, r\<lparr>Compress := True\<rparr>)]"
    and "exchanges (handleRedirect e w req redirect s) = exchanges s + 1"
    and "RebindMap (handleRedirect e w req redirect s) = RebindMap s"
  using assms
  by (simp_all add: handleRedirect_def Let_def retry_success emit_simps
      replies_def emit_def)

lemma handleRedirect_second:
  assumes "Exchange e (exchanges s) (client_net w) req redirect = Inl err"
    and "Exchange e (exchanges s + 1) (client_net w) req redirect = Inr r"
  shows "replies (handleRedirect e w req redirect s) = replies s @ [(w, r\<lparr>Compress := True\<rparr>)]"
    and "exchanges (handleRedirect e w req redirect s) = exchanges s + 2"
    and "RebindMap (handleRedirect e w req redirect s) = RebindMap s"
  using assms
  by (simp_all add: handleRedirect_def Let_def retry_success retry_again emit_simps
      replies_def emit_def)

lemma handleRedirect_failed:
  assumes "Exchange e (exchanges s) (client_net w) req redirect = Inl err"
    and "Exchange e (exchanges s + 1) (client_net w) req redirect = Inl err'"
  shows "replies (handleRedirect e w req redirect s) = replies s @ [(w, servfail_Msg req)]"
    and "exchanges (handleRedirect e w req redirect s) = exchanges s + 2"
    and "RebindMap (handleRedirect e w req redirect s) = RebindMap s"
  using assms
  by (simp_all add: handleRedirect_def Let_def retry_exhausted retry_again emit_simps
      replies_def emit_def)

lemma Rcode_servfail: "Rcode (servfail_Msg req) = RcodeServerFailure"
  by (simp add: servfail_Msg_def SetRcode_def)
lemma Answer_servfail: "Answer (servfail_Msg req) = []"
  by (simp add: servfail_Msg_def SetRcode_def SetReply_def new_Msg_def)
lemma Compress_servfail: "Compress (servfail_Msg req) = False"
  by (simp add: servfail_Msg_def SetRcode_def SetReply_def new_Msg_def)
lemma Rcode_respond_Msg: "Rcode (respond_Msg e req respond) = RcodeSuccess"
  by (simp add: respond_Msg_def SetRcode_def)
lemma Compress_respond_Msg: "Compress (respond_Msg e req respond) = False"
  by (simp add: respond_Msg_def SetRcode_def SetReply_def new_Msg_def)
lemma Answer_respond_Msg:
  "Answer (respond_Msg e req respond) = map (\<lambda>q. respond_rr e q respond) (Question req)"
  by (simp add: respond_Msg_def)

text \<open>Every run of \<open>handleRedirect\<close> writes one message: an upstream reply, marked for compression, or the failure reply.\<close>

lemma handleRedirect_cases:
  "\<exists>m. replies (handleRedirect e w req redirect s) = replies s @ [(w, m)] \<and>
       (Compress m \<or> m = servfail_Msg req) \<and>
       exchanges s < exchanges (handleRedirect e w req redirect s) \<and>
       exchanges (handleRedirect e w req redirect s) \<le> exchanges s + 2 \<and>
       RebindMap (handleRedirect e w req redirect s) = RebindMap s"
proof (cases "Exchange e (exchanges s) (client_net w) req redirect")
  case (Inr r)
  from handleRedirect_first[OF this] show ?thesis by simp
next
  case first: (Inl err)
  show ?thesis
  proof (cases "Exchange e (exchanges s + 1) (client_net w) req redirect")
    case (Inr r)
    from handleRedirect_second[OF first this] show ?thesis by simp
  next
    case (Inl err')
    from handleRedirect_failed[OF first this] show ?thesis by simp
  qed
qed

subsection \<open>The loop over the handlers\<close>

lemma HasSuffix_iff: "HasSuffix s suffix \<longleftrightarrow> (\<exists>p. s = p @ suffix)"
proof
  assume h: "HasSuffix s suffix"
  then have "s = take (length s - length suffix) s @ suffix"
    by (metis HasSuffix_def append_take_drop_id)
  then show "\<exists>p. s = p @ suffix" ..
next
  assume "\<exists>p. s = p @ suffix"
  then show "HasSuffix s suffix" by (auto simp: HasSuffix_def)
qed

lemma index_Cons_0: "index (x # xs) 0 = Inr x"
  by (simp add: index_def)
lemma index_Nil: "index [] i = Inl IndexOutOfRange"
  by (simp add: index_def)

lemma range_Handlers_find:
  assumes "Question req = q # qs"
  shows "range_Handlers hs req =
     Inr (find (\<lambda>(k, v). k \<noteq> ''.'' \<and> key_matches (Question.Name q) k) hs)"
proof (induction hs)
  case Nil
  show ?case by simp
next
  case (Cons kv hs)
  obtain k v where kv: "kv = (k, v)" by (cases kv)
  show ?case unfolding kv using Cons assms by (simp add: index_Cons_0)
qed

lemma range_Handlers_empty_question:
  assumes "Question req = []"
  shows "range_Handlers hs req =
     (if \<exists>k\<in>fst ` set hs. k \<noteq> ''.'' then Inl IndexOutOfRange else Inr None)"
proof (induction hs)
  case Nil
  show ?case by simp
next
  case (Cons kv hs)
  obtain k v where kv: "kv = (k, v)" by (cases kv)
  show ?case unfolding kv using Cons assms by (simp add: index_Nil)
qed

lemma range_Handlers_Some:
  assumes "range_Handlers hs req = Inr (Some (k, v))"
  shows "(k, v) \<in> set hs \<and> k \<noteq> ''.'' \<and>
         (\<exists>q qs. Question req = q # qs \<and> key_matches (Question.Name q) k)"
proof (cases "Question req")
  case Nil
  with assms show ?thesis by (simp add: range_Handlers_empty_question split: if_splits)
next
  case (Cons q qs)
  with assms have "find (\<lambda>(k, v). k \<noteq> ''.'' \<and> key_matches (Question.Name q) k) hs = Some (k, v)"
    by (simp add: range_Handlers_find)
  then show ?thesis using Cons
    by (auto simp: find_Some_iff in_set_conv_nth)
qed

lemma range_Handlers_None:
  "Question req = q # qs \<Longrightarrow>
   range_Handlers hs req = Inr None \<longleftrightarrow>
     (\<forall>(k, v)\<in>set hs. k \<noteq> ''.'' \<longrightarrow> \<not> key_matches (Question.Name q) k)"
  by (auto simp: range_Handlers_find find_None_iff)

lemma range_Handlers_match:
  assumes "Question req = q # qs" "(k, v) \<in> set hs" "k \<noteq> ''.''" "key_matches (Question.Name q) k"
  shows "\<exists>k' v'. range_Handlers hs req = Inr (Some (k', v')) \<and> (k', v') \<in> set hs \<and> k' \<noteq> ''.'' \<and>
           key_matches (Question.Name q) k'"
proof -
  have "find (\<lambda>(k, v). k \<noteq> ''.'' \<and> key_matches (Question.Name q) k) hs \<noteq> None"
    using assms by (auto simp: find_None_iff)
  then obtain k' v' where "range_Handlers hs req = Inr (Some (k', v'))"
    using assms(1) by (auto simp: range_Handlers_find)
  with range_Handlers_Some[OF this] assms(1) show ?thesis by auto
qed

subsection \<open>Letter case\<close>

lemma of_char_lowerByte_eq:
  assumes "(n::nat) < 65 \<or> (90 < n \<and> n < 97) \<or> 122 < n"
  shows "of_char (lowerByte c) = n \<longleftrightarrow> of_char c = n"
  using assms by (auto simp: lowerByte_def)

lemma lowerByte_dot: "lowerByte c = CHR ''.'' \<longleftrightarrow> c = CHR ''.''"
proof -
  have e: "(of_char (CHR ''.'') :: nat) = 46" by simp
  have "of_char (lowerByte c) = (of_char (CHR ''.'') :: nat) \<longleftrightarrow> of_char c = (of_char (CHR ''.'') :: nat)"
    unfolding e by (rule of_char_lowerByte_eq) simp
  then show ?thesis by (simp only: of_char_eq_iff)
qed

lemma lowerByte_backslash: "lowerByte c = CHR 0x5C \<longleftrightarrow> c = CHR 0x5C"
proof -
  have e: "(of_char (CHR 0x5C) :: nat) = 92" by simp
  have "of_char (lowerByte c) = (of_char (CHR 0x5C) :: nat) \<longleftrightarrow> of_char c = (of_char (CHR 0x5C) :: nat)"
    unfolding e by (rule of_char_lowerByte_eq) simp
  then show ?thesis by (simp only: of_char_eq_iff)
qed

lemma takeWhile_length_map:
  "(\<And>x. P (f x) = Q x) \<Longrightarrow> length (takeWhile P (map f xs)) = length (takeWhile Q xs)"
  by (induction xs) simp_all

lemma IsFqdn_ToLower: "IsFqdn (ToLower s) = IsFqdn s"
proof (cases "s = []")
  case True
  then show ?thesis by (simp add: ToLower_def)
next
  case ne: False
  have l: "last (map lowerByte s) = lowerByte (last s)" using ne by (simp add: last_map)
  show ?thesis
  proof (cases "butlast s = []")
    case True
    then show ?thesis using ne l
      by (simp add: IsFqdn_def ToLower_def map_butlast[symmetric] lowerByte_dot)
  next
    case False
    then have l2: "last (map lowerByte (butlast s)) = lowerByte (last (butlast s))"
      by (simp add: last_map)
    have tw: "length (takeWhile (\<lambda>c. \<not> c \<noteq> CHR 0x5C) (rev (map lowerByte (butlast s)))) =
          length (takeWhile (\<lambda>c. \<not> c \<noteq> CHR 0x5C) (rev (butlast s)))"
      unfolding rev_map by (rule takeWhile_length_map) (simp add: lowerByte_backslash)
    show ?thesis using ne False l l2 tw
      by (simp add: IsFqdn_def ToLower_def map_butlast[symmetric] lowerByte_dot
          lowerByte_backslash LastIndexFunc_def Let_def)
  qed
qed

lemma lowerByte_idem: "lowerByte (lowerByte c) = lowerByte c"
proof -
  have "of_char (lowerByte (lowerByte c)) = (of_char (lowerByte c) :: nat)"
    by (auto simp: lowerByte_def)
  then show ?thesis by (simp only: of_char_eq_iff)
qed

lemma ToLower_append: "ToLower (a @ b) = ToLower a @ ToLower b"
  by (simp add: ToLower_def)

lemma ToLower_dot: "ToLower ''.'' = ''.''"
  using lowerByte_dot[of "CHR ''.''"] by (simp add: ToLower_def)

lemma ToLower_Fqdn: "ToLower (Fqdn k) = Fqdn (ToLower k)"
  by (simp add: Fqdn_def IsFqdn_ToLower ToLower_append ToLower_dot)

lemma key_matches_iff:
  "key_matches name k \<longleftrightarrow>
     ToLower name = ToLower (Fqdn k) \<or> (\<exists>p. ToLower name = p @ ''.'' @ ToLower (Fqdn k))"
  by (simp add: key_matches_def Let_def HasSuffix_iff)

lemma key_matches_case:
  "ToLower name = ToLower name' \<Longrightarrow> ToLower k = ToLower k' \<Longrightarrow>
   key_matches name k = key_matches name' k'"
  by (simp add: key_matches_def ToLower_Fqdn)

section \<open>The claims\<close>

subsection \<open>Examples: the upstream and the initial world\<close>

lemma example_exchange:
  "Exchange (example_env script) n net req addr =
     (if n < length script then script ! n else Inl ''i/o timeout'')"
  by (simp add: example_env_def)

lemma replies_example_world: "replies example_world = []"
  by (simp add: replies_def example_world_def)
lemma exchanges_example_world: "exchanges example_world = 0"
  by (simp add: example_world_def)

subsection \<open>C4: the forwarder\<close>

text \<open>
  Claim C4. \<open>handleRedirect\<close> makes at most two upstream exchanges, both with the
  client's protocol, the same query and the same address. If the first exchange
  succeeds, the client is written the upstream's reply with \<open>Compress\<close> set, after one
  exchange; if the first fails and the second succeeds, likewise after two exchanges;
  if both fail, the client is written a reply with server-failure status and no answer
  record, after two exchanges and no more.
\<close>

theorem C4_forward_retries_once:
  "(\<forall>r. Exchange e (exchanges s) (client_net w) req redirect = Inr r \<longrightarrow>
       replies (handleRedirect e w req redirect s) = replies s @ [(w, r\<lparr>Compress := True\<rparr>)] \<and>
       exchanges (handleRedirect e w req redirect s) = exchanges s + 1) \<and>
   (\<forall>err r. Exchange e (exchanges s) (client_net w) req redirect = Inl err \<and>
       Exchange e (exchanges s + 1) (client_net w) req redirect = Inr r \<longrightarrow>
       replies (handleRedirect e w req redirect s) = replies s @ [(w, r\<lparr>Compress := True\<rparr>)] \<and>
       exchanges (handleRedirect e w req redirect s) = exchanges s + 2) \<and>
   (\<forall>err err'. Exchange e (exchanges s) (client_net w) req redirect = Inl err \<and>
       Exchange e (exchanges s + 1) (client_net w) req redirect = Inl err' \<longrightarrow>
       replies (handleRedirect e w req redirect s) = replies s @ [(w, servfail_Msg req)] \<and>
       Rcode (servfail_Msg req) = RcodeServerFailure \<and>
       Answer (servfail_Msg req) = [] \<and>
       exchanges (handleRedirect e w req redirect s) = exchanges s + 2) \<and>
   exchanges (handleRedirect e w req redirect s) \<le> exchanges s + 2"
proof (intro conjI allI impI)
  fix r assume "Exchange e (exchanges s) (client_net w) req redirect = Inr r"
  from handleRedirect_first[OF this]
  show "replies (handleRedirect e w req redirect s) = replies s @ [(w, r\<lparr>Compress := True\<rparr>)]"
    and "exchanges (handleRedirect e w req redirect s) = exchanges s + 1" by simp_all
next
  fix err r
  assume "Exchange e (exchanges s) (client_net w) req redirect = Inl err \<and>
       Exchange e (exchanges s + 1) (client_net w) req redirect = Inr r"
  then have a: "Exchange e (exchanges s) (client_net w) req redirect = Inl err"
    and b: "Exchange e (exchanges s + 1) (client_net w) req redirect = Inr r" by simp_all
  from handleRedirect_second[OF a b]
  show "replies (handleRedirect e w req redirect s) = replies s @ [(w, r\<lparr>Compress := True\<rparr>)]"
    and "exchanges (handleRedirect e w req redirect s) = exchanges s + 2" by simp_all
next
  fix err err'
  assume "Exchange e (exchanges s) (client_net w) req redirect = Inl err \<and>
       Exchange e (exchanges s + 1) (client_net w) req redirect = Inl err'"
  then have a: "Exchange e (exchanges s) (client_net w) req redirect = Inl err"
    and b: "Exchange e (exchanges s + 1) (client_net w) req redirect = Inl err'" by simp_all
  from handleRedirect_failed[OF a b]
  show "replies (handleRedirect e w req redirect s) = replies s @ [(w, servfail_Msg req)]"
    and "exchanges (handleRedirect e w req redirect s) = exchanges s + 2" by simp_all
  show "Rcode (servfail_Msg req) = RcodeServerFailure" by (rule Rcode_servfail)
  show "Answer (servfail_Msg req) = []" by (rule Answer_servfail)
next
  from handleRedirect_cases[of e w req redirect s]
  show "exchanges (handleRedirect e w req redirect s) \<le> exchanges s + 2" by blast
qed

theorem C4_forward_retries_once_witness:
  "replies (handleRedirect (example_env [Inr example_upstream_reply]) example_writer
      (example_query [''www.example.com.'']) ''9.9.9.9:53'' example_world) =
     [(example_writer, example_upstream_reply\<lparr>Compress := True\<rparr>)] \<and>
   exchanges (handleRedirect (example_env [Inr example_upstream_reply]) example_writer
      (example_query [''www.example.com.'']) ''9.9.9.9:53'' example_world) = 1 \<and>
   replies (handleRedirect (example_env [Inl ''i/o timeout'', Inr example_upstream_reply])
      example_writer (example_query [''www.example.com.'']) ''9.9.9.9:53'' example_world) =
     [(example_writer, example_upstream_reply\<lparr>Compress := True\<rparr>)] \<and>
   exchanges (handleRedirect (example_env [Inl ''i/o timeout'', Inr example_upstream_reply])
      example_writer (example_query [''www.example.com.'']) ''9.9.9.9:53'' example_world) = 2 \<and>
   replies (handleRedirect (example_env [Inl ''i/o timeout'', Inl ''i/o timeout'', Inr example_upstream_reply])
      example_writer (example_query [''www.example.com.'']) ''9.9.9.9:53'' example_world) =
     [(example_writer, servfail_Msg (example_query [''www.example.com.'']))] \<and>
   exchanges (handleRedirect (example_env [Inl ''i/o timeout'', Inl ''i/o timeout'', Inr example_upstream_reply])
      example_writer (example_query [''www.example.com.'']) ''9.9.9.9:53'' example_world) = 2"
  using
    C4_forward_retries_once[of "example_env [Inr example_upstream_reply]" example_world
      example_writer "example_query [''www.example.com.'']" "''9.9.9.9:53''"]
    C4_forward_retries_once[of "example_env [Inl ''i/o timeout'', Inr example_upstream_reply]"
      example_world example_writer "example_query [''www.example.com.'']" "''9.9.9.9:53''"]
    C4_forward_retries_once[of
      "example_env [Inl ''i/o timeout'', Inl ''i/o timeout'', Inr example_upstream_reply]"
      example_world example_writer "example_query [''www.example.com.'']" "''9.9.9.9:53''"]
  by (simp add: example_exchange replies_example_world exchanges_example_world)

subsection \<open>Examples: the literals\<close>

lemma To4_IPv4: "To4 (IPv4 a b c d) = Some [a, b, c, d]"
  by (simp add: To4_def IPv4_def isZeros_def)

lemma ParseIP_example: "ParseIP (example_env script) = example_ParseIP"
  by (simp add: example_env_def)

lemma example_ParseIP_v4: "example_ParseIP ''203.0.113.5'' = Some (IPv4 203 0 113 5)"
  by (simp add: example_ParseIP_def)

lemma example_ParseIP_v6:
  "example_ParseIP ''2001:db8::1'' = Some [0x20, 0x01, 0x0d, 0xb8, 0, 0, 0, 0, 0, 0, 0, 0, 0, 0, 0, 1]"
  by (simp add: example_ParseIP_def)

lemma To4_example_v6:
  "To4 [0x20, 0x01, 0x0d, 0xb8, 0, 0, 0, 0, 0, 0, 0, 0, 0, 0, 0, 1] = None"
  by (simp add: To4_def isZeros_def)

lemma example_ParseIP_names:
  "example_ParseIP ''cname.example.org'' = None" "example_ParseIP ''foo..'' = None"
  by (simp_all add: example_ParseIP_def)

lemma Question_example_query:
  "Question (example_query names) = map (\<lambda>n. \<lparr>Question.Name = n, Qtype = 1, Qclass = 1\<rparr>) names"
  by (simp add: example_query_def)

lemma TrimSuffix_dot:
  "TrimSuffix x ''.'' @ ''.'' = (if x \<noteq> [] \<and> last x = CHR ''.'' then x else x @ ''.'')"
proof (cases "x = []")
  case True
  then show ?thesis by (simp add: TrimSuffix_def HasSuffix_def)
next
  case False
  then have x: "x = butlast x @ [last x]" by simp
  have "HasSuffix (butlast x @ [last x]) ''.'' \<longleftrightarrow> last x = CHR ''.''"
    by (simp add: HasSuffix_def)
  then have "HasSuffix x ''.'' \<longleftrightarrow> last x = CHR ''.''"
    using False by simp
  moreover have "take (length x - 1) x = butlast x" by (simp add: butlast_conv_take)
  moreover have "last x = CHR ''.'' \<Longrightarrow> butlast x @ ''.'' = x"
    using x by metis
  ultimately show ?thesis using False by (simp add: TrimSuffix_def)
qed

subsection \<open>C7: classification of the literal\<close>

text \<open>
  Claim C7. \<open>handleRespond\<close> writes one reply with success status whose answer section
  has one record per question of the query. The record for question \<open>i\<close> carries that
  question's name and TTL 0, and its kind follows the literal: an A record with the
  parsed address when \<^verbatim>\<open>net.ParseIP\<close> yields an address that \<^verbatim>\<open>To4\<close> accepts (an IPv4
  address), an AAAA record with the parsed address when \<^verbatim>\<open>net.ParseIP\<close> yields any
  other address (an IPv6 address), and a CNAME record when the literal is no IP
  address.
\<close>

theorem C7_synthesizer_classification:
  assumes "i < length (Question req)"
  shows "replies (handleRespond e w req respond s) = replies s @ [(w, respond_Msg e req respond)] \<and>
    Rcode (respond_Msg e req respond) = RcodeSuccess \<and>
    length (Answer (respond_Msg e req respond)) = length (Question req) \<and>
    (\<forall>ip a. ParseIP e respond = Some ip \<and> To4 ip = Some a \<longrightarrow>
       Answer (respond_Msg e req respond) ! i =
         RR_A \<lparr>RR_Header.Name = Question.Name (Question req ! i), Rrtype = TypeA,
                 Class = ClassINET, Ttl = 0, Rdlength = 0\<rparr> ip) \<and>
    (\<forall>ip. ParseIP e respond = Some ip \<and> To4 ip = None \<longrightarrow>
       Answer (respond_Msg e req respond) ! i =
         RR_AAAA \<lparr>RR_Header.Name = Question.Name (Question req ! i), Rrtype = TypeAAAA,
                    Class = ClassINET, Ttl = 0, Rdlength = 0\<rparr> ip) \<and>
    (ParseIP e respond = None \<longrightarrow>
       (\<exists>target. Answer (respond_Msg e req respond) ! i =
         RR_CNAME \<lparr>RR_Header.Name = Question.Name (Question req ! i), Rrtype = TypeCNAME,
                     Class = ClassINET, Ttl = 0, Rdlength = 0\<rparr> target))"
proof -
  have nth: "Answer (respond_Msg e req respond) ! i = respond_rr e (Question req ! i) respond"
    using assms by (simp add: Answer_respond_Msg)
  show ?thesis
    unfolding nth
    by (simp add: replies_handleRespond Rcode_respond_Msg Answer_respond_Msg respond_rr_def)
qed

theorem C7_synthesizer_classification_witness:
  "Answer (respond_Msg (example_env []) (example_query [''a.example.com.'', ''b.example.com.''])
      ''203.0.113.5'') ! 1 =
     RR_A \<lparr>RR_Header.Name = ''b.example.com.'', Rrtype = TypeA, Class = ClassINET, Ttl = 0,
             Rdlength = 0\<rparr> (IPv4 203 0 113 5) \<and>
   Answer (respond_Msg (example_env []) (example_query [''a.example.com.'', ''b.example.com.''])
      ''2001:db8::1'') ! 1 =
     RR_AAAA \<lparr>RR_Header.Name = ''b.example.com.'', Rrtype = TypeAAAA, Class = ClassINET, Ttl = 0,
             Rdlength = 0\<rparr> [0x20, 0x01, 0x0d, 0xb8, 0, 0, 0, 0, 0, 0, 0, 0, 0, 0, 0, 1] \<and>
   (\<exists>target. Answer (respond_Msg (example_env [])
      (example_query [''a.example.com.'', ''b.example.com.'']) ''cname.example.org'') ! 1 =
     RR_CNAME \<lparr>RR_Header.Name = ''b.example.com.'', Rrtype = TypeCNAME, Class = ClassINET,
                 Ttl = 0, Rdlength = 0\<rparr> target) \<and>
   length (Answer (respond_Msg (example_env [])
      (example_query [''a.example.com.'', ''b.example.com.'']) ''203.0.113.5'')) = 2 \<and>
   replies (handleRespond (example_env []) example_writer
      (example_query [''a.example.com.'', ''b.example.com.'']) ''203.0.113.5'' example_world) =
     [(example_writer, respond_Msg (example_env [])
        (example_query [''a.example.com.'', ''b.example.com.'']) ''203.0.113.5'')]"
  using
    C7_synthesizer_classification[of 1 "example_query [''a.example.com.'', ''b.example.com.'']"
      "example_env []" example_writer "''203.0.113.5''" example_world]
    C7_synthesizer_classification[of 1 "example_query [''a.example.com.'', ''b.example.com.'']"
      "example_env []" example_writer "''2001:db8::1''" example_world]
    C7_synthesizer_classification[of 1 "example_query [''a.example.com.'', ''b.example.com.'']"
      "example_env []" example_writer "''cname.example.org''" example_world]
  by (simp add: Question_example_query ParseIP_example example_ParseIP_v4 example_ParseIP_v6
      example_ParseIP_names To4_IPv4 To4_example_v6 replies_example_world)

subsection \<open>C8: the target of a CNAME record\<close>

text \<open>
  Claim C8, as amended. For a literal that is no IP address, \<open>handleRespond\<close> writes a
  reply with success status in which the record for each question is a CNAME whose
  target is the literal itself when the literal ends in a dot, and the literal followed
  by one dot otherwise: \<^verbatim>\<open>strings.TrimSuffix\<close> strips at most one trailing dot before the
  dot is appended. No literal is rejected: the reply is written whatever the literal.
\<close>

theorem C8_cname_target:
  assumes "ParseIP e respond = None" and "i < length (Question req)"
  shows "replies (handleRespond e w req respond s) = replies s @ [(w, respond_Msg e req respond)] \<and>
    Rcode (respond_Msg e req respond) = RcodeSuccess \<and>
    Answer (respond_Msg e req respond) ! i =
      RR_CNAME \<lparr>RR_Header.Name = Question.Name (Question req ! i), Rrtype = TypeCNAME,
                  Class = ClassINET, Ttl = 0, Rdlength = 0\<rparr>
        (if respond \<noteq> [] \<and> last respond = CHR ''.'' then respond else respond @ ''.'')"
proof -
  have nth: "Answer (respond_Msg e req respond) ! i = respond_rr e (Question req ! i) respond"
    using assms(2) by (simp add: Answer_respond_Msg)
  show ?thesis
    unfolding nth using assms(1)
    by (simp add: replies_handleRespond Rcode_respond_Msg respond_rr_def TrimSuffix_dot
        del: append_assoc)
qed

theorem C8_cname_target_witness:
  "ParseIP (example_env []) ''cname.example.org'' = None \<and>
   Answer (respond_Msg (example_env []) (example_query [''a.example.com.''])
      ''cname.example.org'') ! 0 =
     RR_CNAME \<lparr>RR_Header.Name = ''a.example.com.'', Rrtype = TypeCNAME, Class = ClassINET,
                 Ttl = 0, Rdlength = 0\<rparr> ''cname.example.org.'' \<and>
   replies (handleRespond (example_env []) example_writer (example_query [''a.example.com.''])
      ''cname.example.org'' example_world) =
     [(example_writer, respond_Msg (example_env []) (example_query [''a.example.com.''])
        ''cname.example.org'')]"
  using C8_cname_target[of "example_env []" "''cname.example.org''" 0
      "example_query [''a.example.com.'']" example_writer example_world]
  by (simp add: Question_example_query ParseIP_example example_ParseIP_names replies_example_world)

theorem C8_two_trailing_dots_counterexample:
  "answers (Inr (handleRespond (example_env []) example_writer
      (example_query [''a.example.com.'']) ''foo..'' example_world)) =
     [[RR_CNAME \<lparr>RR_Header.Name = ''a.example.com.'', Rrtype = TypeCNAME, Class = ClassINET,
                   Ttl = 0, Rdlength = 0\<rparr> ''foo..'']]"
  by (simp add: replies_handleRespond replies_example_world Answer_respond_Msg
      Question_example_query respond_rr_def ParseIP_example example_ParseIP_names
      TrimSuffix_def HasSuffix_def)

subsection \<open>Examples: names and keys\<close>

lemma ToLower_examples:
  "ToLower ''evilexample.com.'' = ''evilexample.com.''"
  "ToLower ''WWW.Example.COM.'' = ''www.example.com.''"
  "ToLower ''a.example.com.'' = ''a.example.com.''"
  "ToLower ''rebind.test.'' = ''rebind.test.''"
  "ToLower ''other.test.'' = ''other.test.''"
  by code_simp+

lemma Fqdn_examples:
  "ToLower (Fqdn ''example.com'') = ''example.com.''"
  "ToLower (Fqdn ''Example.Com.'') = ''example.com.''"
  "ToLower (Fqdn ''rebind.test'') = ''rebind.test.''"
  by code_simp+

lemma key_matches_examples:
  "key_matches ''WWW.Example.COM.'' ''Example.Com.''"
  "key_matches ''a.example.com.'' ''example.com''"
  "key_matches ''rebind.test.'' ''rebind.test''"
  "\<not> key_matches ''other.test.'' ''example.com''"
  "\<not> key_matches ''other.test.'' ''rebind.test''"
  "\<not> key_matches ''evilexample.com.'' ''example.com''"
  by code_simp+

lemma evil_no_suffix:
  "\<not> (''evilexample.com.'' = ''example.com.'' \<or>
      HasSuffix ''evilexample.com.'' (''.'' @ ''example.com.''))"
  by code_simp

lemma Fqdn_root: "ToLower (Fqdn ''.'') = ''.''"
  by code_simp

lemma select_handler_Some:
  assumes "select_handler config req = Inr (Some (k, v))" and "k \<noteq> ''.''"
  shows "range_Handlers (Handlers config) req = Inr (Some (k, v))"
  using assms by (auto simp: select_handler_def split: sum.splits option.splits)

lemma selected_key_matches:
  assumes a: "select_handler config req = Inr (Some (k, v)) \<and> k \<noteq> ''.''"
  shows "(k, v) \<in> set (Handlers config) \<and> (\<exists>q qs. Question req = q # qs \<and> key_matches (Question.Name q) k \<and>
         (ToLower (Question.Name q) = ToLower (Fqdn k) \<or>
          (\<exists>p. ToLower (Question.Name q) = p @ ''.'' @ ToLower (Fqdn k))))"
proof -
  from a have r: "range_Handlers (Handlers config) req = Inr (Some (k, v))"
    by (simp add: select_handler_Some)
  from range_Handlers_Some[OF r] obtain q qs where
    m: "(k, v) \<in> set (Handlers config)" "Question req = q # qs" "key_matches (Question.Name q) k"
    by blast
  from m(3) have "ToLower (Question.Name q) = ToLower (Fqdn k) \<or>
          (\<exists>p. ToLower (Question.Name q) = p @ ''.'' @ ToLower (Fqdn k))"
    by (simp only: key_matches_iff)
  with m show ?thesis
    by blast
qed

lemma evilexample_not_selected:
  assumes a: "Question req = q' # qs' \<and> ToLower (Question.Name q') = ''evilexample.com.'' \<and>
      ToLower (Fqdn k') = ''example.com.''"
  shows "select_handler config req \<noteq> Inr (Some (k', v'))"
proof -
  have "key_matches (Question.Name q') k' =
      (''evilexample.com.'' = ''example.com.'' \<or>
       HasSuffix ''evilexample.com.'' (''.'' @ ''example.com.''))"
    unfolding key_matches_def Let_def using a by (simp only:)
  then have nm: "\<not> key_matches (Question.Name q') k'"
    using evil_no_suffix by blast
  have "k' \<noteq> ''.''"
  proof
    assume "k' = ''.''"
    with a Fqdn_root have "''.'' = ''example.com.''" by (simp only:)
    then show False by simp
  qed
  show "select_handler config req \<noteq> Inr (Some (k', v'))"
  proof
    assume "select_handler config req = Inr (Some (k', v'))"
    with \<open>k' \<noteq> ''.''\<close> have "range_Handlers (Handlers config) req = Inr (Some (k', v'))"
      by (simp add: select_handler_Some)
    from range_Handlers_Some[OF this] obtain q qs where
      "Question req = q # qs" "key_matches (Question.Name q) k'" by blast
    with a nm show False by simp
  qed
qed

subsection \<open>C5: the match of a key\<close>

text \<open>
  Claim C5, for ASCII names and keys (the strings on which \<open>ToLower\<close> and \<open>Fqdn\<close> above
  are the library's functions). When the matcher selects a key \<open>k\<close> other than \<^verbatim>\<open>"."\<close>,
  the lower-cased name of the first question equals the lower-cased fully qualified
  form of \<open>k\<close>, or ends with \<^verbatim>\<open>"."\<close> followed by that form. Hence a query whose name is
  \<^verbatim>\<open>evilexample.com.\<close> in any letter case never selects a key whose fully qualified form
  is \<^verbatim>\<open>example.com.\<close> in any letter case, and the test of a key gives the same result
  for names that differ only in letter case and for keys that differ only in letter
  case.
\<close>

theorem C5_label_boundary_match:
  assumes "\<forall>key\<in>fst ` set (Handlers config). isASCII key"
    and "\<forall>x\<in>set (Question req). isASCII (Question.Name x)"
  shows "(select_handler config req = Inr (Some (k, v)) \<and> k \<noteq> ''.'' \<longrightarrow>
      (k, v) \<in> set (Handlers config) \<and>
      (\<exists>q qs. Question req = q # qs \<and> key_matches (Question.Name q) k \<and>
         (ToLower (Question.Name q) = ToLower (Fqdn k) \<or>
          (\<exists>p. ToLower (Question.Name q) = p @ ''.'' @ ToLower (Fqdn k))))) \<and>
   (Question req = q' # qs' \<and> ToLower (Question.Name q') = ''evilexample.com.'' \<and>
      ToLower (Fqdn k') = ''example.com.'' \<longrightarrow>
      select_handler config req \<noteq> Inr (Some (k', v'))) \<and>
   (isASCII na \<and> isASCII nb \<and> isASCII ka \<and> isASCII kb \<and>
      ToLower na = ToLower nb \<and> ToLower ka = ToLower kb \<longrightarrow>
      key_matches na ka = key_matches nb kb)"
proof (intro conjI)
  show "select_handler config req = Inr (Some (k, v)) \<and> k \<noteq> ''.'' \<longrightarrow>
      (k, v) \<in> set (Handlers config) \<and>
      (\<exists>q qs. Question req = q # qs \<and> key_matches (Question.Name q) k \<and>
         (ToLower (Question.Name q) = ToLower (Fqdn k) \<or>
          (\<exists>p. ToLower (Question.Name q) = p @ ''.'' @ ToLower (Fqdn k))))"
    by (rule impI) (rule selected_key_matches)
  show "Question req = q' # qs' \<and> ToLower (Question.Name q') = ''evilexample.com.'' \<and>
      ToLower (Fqdn k') = ''example.com.'' \<longrightarrow>
      select_handler config req \<noteq> Inr (Some (k', v'))"
    by (rule impI) (rule evilexample_not_selected)
  show "isASCII na \<and> isASCII nb \<and> isASCII ka \<and> isASCII kb \<and>
      ToLower na = ToLower nb \<and> ToLower ka = ToLower kb \<longrightarrow>
      key_matches na ka = key_matches nb kb"
    using key_matches_case by blast
qed

theorem C5_label_boundary_match_witness:
  "isASCII ''WWW.Example.COM.'' \<and> isASCII ''www.example.com.'' \<and>
   isASCII ''Example.Com.'' \<and> isASCII ''example.com.'' \<and>
   isASCII ''evilexample.com.'' \<and> isASCII ''example.com'' \<and>
   select_handler
     (example_config [(''Example.Com.'', example_policy\<lparr>Respond := ''203.0.113.5''\<rparr>)])
     (example_query [''WWW.Example.COM.'']) =
     Inr (Some (''Example.Com.'', example_policy\<lparr>Respond := ''203.0.113.5''\<rparr>)) \<and>
   key_matches ''WWW.Example.COM.'' ''Example.Com.'' \<and>
   (ToLower ''WWW.Example.COM.'' = ToLower (Fqdn ''Example.Com.'') \<or>
     (\<exists>p. ToLower ''WWW.Example.COM.'' = p @ ''.'' @ ToLower (Fqdn ''Example.Com.''))) \<and>
   ToLower ''evilexample.com.'' = ''evilexample.com.'' \<and>
   ToLower (Fqdn ''example.com'') = ''example.com.'' \<and>
   select_handler
     (example_config [(''example.com'', example_policy\<lparr>Respond := ''203.0.113.5''\<rparr>)])
     (example_query [''evilexample.com.'']) \<noteq>
     Inr (Some (''example.com'', example_policy\<lparr>Respond := ''203.0.113.5''\<rparr>)) \<and>
   ToLower ''WWW.Example.COM.'' = ToLower ''www.example.com.'' \<and>
   ToLower ''Example.Com.'' = ToLower ''example.com.'' \<and>
   key_matches ''WWW.Example.COM.'' ''Example.Com.'' =
     key_matches ''www.example.com.'' ''example.com.''"
proof -
  let ?p = "example_policy\<lparr>Respond := ''203.0.113.5''\<rparr>"
  have asc: "isASCII ''WWW.Example.COM.''" "isASCII ''www.example.com.''"
    "isASCII ''Example.Com.''" "isASCII ''example.com.''"
    "isASCII ''evilexample.com.''" "isASCII ''example.com''"
    by (simp_all add: isASCII_def)
  have k1: "\<forall>key\<in>fst ` set (Handlers (example_config [(''Example.Com.'', ?p)])). isASCII key"
    and k2: "\<forall>key\<in>fst ` set (Handlers (example_config [(''example.com'', ?p)])). isASCII key"
    using asc by (simp_all add: example_config_def)
  have n1: "\<forall>x\<in>set (Question (example_query [''WWW.Example.COM.''])). isASCII (Question.Name x)"
    and n2: "\<forall>x\<in>set (Question (example_query [''evilexample.com.''])). isASCII (Question.Name x)"
    using asc by (simp_all add: Question_example_query)
  have sel: "select_handler (example_config [(''Example.Com.'', ?p)])
      (example_query [''WWW.Example.COM.'']) = Inr (Some (''Example.Com.'', ?p))"
    by (simp add: select_handler_def example_config_def Question_example_query index_def
        key_matches_examples)
  have low: "ToLower ''WWW.Example.COM.'' = ToLower ''www.example.com.''"
    "ToLower ''Example.Com.'' = ToLower ''example.com.''"
    by code_simp+
  note t1 = C5_label_boundary_match[OF k1 n1, where k = "''Example.Com.''" and v = ?p
      and na = "''WWW.Example.COM.''" and nb = "''www.example.com.''"
      and ka = "''Example.Com.''" and kb = "''example.com.''"]
  note t2 = C5_label_boundary_match[OF k2 n2, where k' = "''example.com''" and v' = ?p
      and q' = "\<lparr>Question.Name = ''evilexample.com.'', Qtype = 1, Qclass = 1\<rparr>" and qs' = "[]"]
  from t1 sel have a: "key_matches ''WWW.Example.COM.'' ''Example.Com.'' \<and>
      (ToLower ''WWW.Example.COM.'' = ToLower (Fqdn ''Example.Com.'') \<or>
        (\<exists>p. ToLower ''WWW.Example.COM.'' = p @ ''.'' @ ToLower (Fqdn ''Example.Com.'')))"
    by (simp add: Question_example_query)
  from t1 low asc have c: "key_matches ''WWW.Example.COM.'' ''Example.Com.'' =
     key_matches ''www.example.com.'' ''example.com.''"
    by blast
  from t2 have b: "select_handler (example_config [(''example.com'', ?p)])
     (example_query [''evilexample.com.'']) \<noteq> Inr (Some (''example.com'', ?p))"
    by (simp add: Question_example_query ToLower_examples Fqdn_examples)
  from sel a b c low asc show ?thesis
    by (simp only: ToLower_examples(1) Fqdn_examples(1) simp_thms)
qed

subsection \<open>The selection as a whole\<close>

lemma select_handler_nonempty:
  assumes "Question req = q # qs"
  shows "select_handler config req =
     Inr (case find (\<lambda>(k, v). k \<noteq> ''.'' \<and> key_matches (Question.Name q) k) (Handlers config) of
            Some kv \<Rightarrow> Some kv
          | None \<Rightarrow> (case map_of (Handlers config) ''.'' of
                       Some cnf \<Rightarrow> Some (''.'', cnf) | None \<Rightarrow> None))"
  by (simp add: select_handler_def range_Handlers_find[OF assms] split: option.splits)

lemma select_handler_first_name:
  assumes "Question req = q # qs" and "Question req' = q' # qs'"
    and "Question.Name q = Question.Name q'"
  shows "select_handler config req = select_handler config req'"
  by (simp add: select_handler_nonempty[OF assms(1)] select_handler_nonempty[OF assms(2)] assms(3))

lemma select_handler_empty_question:
  assumes "Question req = []"
  shows "select_handler config req =
     (if \<exists>k\<in>fst ` set (Handlers config). k \<noteq> ''.'' then Inl IndexOutOfRange
      else (case map_of (Handlers config) ''.'' of
              Some cnf \<Rightarrow> Inr (Some (''.'', cnf)) | None \<Rightarrow> Inr None))"
  by (simp add: select_handler_def range_Handlers_empty_question[OF assms])

lemma action_returns: "\<exists>s'. action e w req ck c s = Inr s'"
  by (simp add: action_def index_def Let_def split: option.splits)

lemma handleDNS_no_handler:
  assumes "select_handler config req = Inr None" and "Question req = q # qs"
  shows "handleDNS e w req config s =
     Inr (s\<lparr>trace := trace s @ [Log Warn (''no handler for domain: '' @ Question.Name q),
                                 WriteMsg w (servfail_Msg req)]\<rparr>)"
  using assms by (simp add: handleDNS_def index_Cons_0 emit_def servfail_Msg_def)

lemma handleDNS_selected:
  assumes "select_handler config req = Inr (Some (ck, c))"
  shows "handleDNS e w req config s =
     (case action e w req ck c s of Inl err \<Rightarrow> Inl err | Inr s' \<Rightarrow> Inr (notify e w req c s'))"
  using assms by (simp add: handleDNS_def)

subsection \<open>C6: the default key and the query without a handler\<close>

text \<open>
  Claim C6, for a query with a question. If some key other than \<^verbatim>\<open>"."\<close> matches the
  name, the selected key is such a matching key, not \<^verbatim>\<open>"."\<close>. If no key other than
  \<^verbatim>\<open>"."\<close> matches and \<^verbatim>\<open>"."\<close> is configured, its policy is selected under the key
  \<^verbatim>\<open>"."\<close>. If neither, \<open>handleDNS\<close> logs the warning and writes a reply with
  server-failure status and no answer record, and that is all it does: no action, no
  change of a rebind counter, no upstream exchange and no notification.
\<close>

theorem C6_default_last_then_servfail:
  assumes "Question req = q # qs"
  shows "(\<forall>k v. (k, v) \<in> set (Handlers config) \<and> k \<noteq> ''.'' \<and> key_matches (Question.Name q) k \<longrightarrow>
       (\<exists>k' v'. select_handler config req = Inr (Some (k', v')) \<and> k' \<noteq> ''.'' \<and>
          (k', v') \<in> set (Handlers config) \<and> key_matches (Question.Name q) k')) \<and>
    (\<forall>cnf. (\<forall>(k, v)\<in>set (Handlers config). k \<noteq> ''.'' \<longrightarrow> \<not> key_matches (Question.Name q) k) \<and>
       map_of (Handlers config) ''.'' = Some cnf \<longrightarrow>
       select_handler config req = Inr (Some (''.'', cnf))) \<and>
    ((\<forall>(k, v)\<in>set (Handlers config). k \<noteq> ''.'' \<longrightarrow> \<not> key_matches (Question.Name q) k) \<and>
       map_of (Handlers config) ''.'' = None \<longrightarrow>
       handleDNS e w req config s =
         Inr (s\<lparr>trace := trace s @ [Log Warn (''no handler for domain: '' @ Question.Name q),
                                     WriteMsg w (servfail_Msg req)]\<rparr>) \<and>
       Rcode (servfail_Msg req) = RcodeServerFailure \<and>
       Answer (servfail_Msg req) = [])"
proof (intro conjI allI impI)
  fix k v
  assume "(k, v) \<in> set (Handlers config) \<and> k \<noteq> ''.'' \<and> key_matches (Question.Name q) k"
  then have "\<exists>k' v'. range_Handlers (Handlers config) req = Inr (Some (k', v')) \<and>
      (k', v') \<in> set (Handlers config) \<and> k' \<noteq> ''.'' \<and> key_matches (Question.Name q) k'"
    using range_Handlers_match[OF assms] by blast
  then obtain k' v' where r: "range_Handlers (Handlers config) req = Inr (Some (k', v'))"
    and m: "(k', v') \<in> set (Handlers config)" "k' \<noteq> ''.''" "key_matches (Question.Name q) k'"
    by blast
  from r have "select_handler config req = Inr (Some (k', v'))"
    by (simp add: select_handler_def)
  with m show "\<exists>k' v'. select_handler config req = Inr (Some (k', v')) \<and> k' \<noteq> ''.'' \<and>
          (k', v') \<in> set (Handlers config) \<and> key_matches (Question.Name q) k'"
    by blast
next
  fix cnf
  assume a: "(\<forall>(k, v)\<in>set (Handlers config). k \<noteq> ''.'' \<longrightarrow> \<not> key_matches (Question.Name q) k) \<and>
       map_of (Handlers config) ''.'' = Some cnf"
  then have "range_Handlers (Handlers config) req = Inr None"
    using range_Handlers_None[OF assms, of "Handlers config"] by blast
  with a show "select_handler config req = Inr (Some (''.'', cnf))"
    by (simp add: select_handler_def)
next
  assume a: "(\<forall>(k, v)\<in>set (Handlers config). k \<noteq> ''.'' \<longrightarrow> \<not> key_matches (Question.Name q) k) \<and>
       map_of (Handlers config) ''.'' = None"
  then have "range_Handlers (Handlers config) req = Inr None"
    using range_Handlers_None[OF assms, of "Handlers config"] by blast
  with a have "select_handler config req = Inr None"
    by (simp add: select_handler_def)
  from handleDNS_no_handler[OF this assms]
  show "handleDNS e w req config s =
         Inr (s\<lparr>trace := trace s @ [Log Warn (''no handler for domain: '' @ Question.Name q),
                                     WriteMsg w (servfail_Msg req)]\<rparr>)" .
  show "Rcode (servfail_Msg req) = RcodeServerFailure" by (rule Rcode_servfail)
  show "Answer (servfail_Msg req) = []" by (rule Answer_servfail)
qed

theorem C6_default_last_then_servfail_witness:
  "(\<exists>k' v'. select_handler
       (example_config [(''.'', example_policy\<lparr>Respond := ''10.0.0.3''\<rparr>),
                        (''example.com'', example_policy\<lparr>Respond := ''203.0.113.5''\<rparr>)])
       (example_query [''a.example.com.'']) = Inr (Some (k', v')) \<and> k' \<noteq> ''.'') \<and>
   select_handler
       (example_config [(''.'', example_policy\<lparr>Respond := ''10.0.0.3''\<rparr>),
                        (''example.com'', example_policy\<lparr>Respond := ''203.0.113.5''\<rparr>)])
       (example_query [''other.test.'']) =
     Inr (Some (''.'', example_policy\<lparr>Respond := ''10.0.0.3''\<rparr>)) \<and>
   handleDNS (example_env []) example_writer (example_query [''other.test.''])
       (example_config [(''example.com'', example_policy\<lparr>Respond := ''203.0.113.5''\<rparr>)])
       example_world =
     Inr (example_world\<lparr>trace :=
       [Log Warn ''no handler for domain: other.test.'',
        WriteMsg example_writer (servfail_Msg (example_query [''other.test.'']))]\<rparr>)"
proof -
  let ?pd = "example_policy\<lparr>Respond := ''10.0.0.3''\<rparr>"
  let ?pe = "example_policy\<lparr>Respond := ''203.0.113.5''\<rparr>"
  let ?q = "\<lambda>n. \<lparr>Question.Name = n, Qtype = 1, Qclass = 1\<rparr>"
  have qa: "Question (example_query [''a.example.com.'']) = ?q ''a.example.com.'' # []"
    and qo: "Question (example_query [''other.test.'']) = ?q ''other.test.'' # []"
    by (simp_all add: Question_example_query)
  note ta = C6_default_last_then_servfail[OF qa,
      of "example_config [(''.'', ?pd), (''example.com'', ?pe)]"]
  note tb = C6_default_last_then_servfail[OF qo,
      of "example_config [(''.'', ?pd), (''example.com'', ?pe)]"]
  note tc = C6_default_last_then_servfail[OF qo,
      of "example_config [(''example.com'', ?pe)]" "example_env []" example_writer example_world]
  have "(''example.com'', ?pe) \<in> set (Handlers (example_config [(''.'', ?pd), (''example.com'', ?pe)])) \<and>
      ''example.com'' \<noteq> ''.'' \<and>
      key_matches (Question.Name (?q ''a.example.com.'')) ''example.com''"
    by (simp add: example_config_def key_matches_examples)
  with ta have a: "\<exists>k' v'. select_handler
       (example_config [(''.'', ?pd), (''example.com'', ?pe)])
       (example_query [''a.example.com.'']) = Inr (Some (k', v')) \<and> k' \<noteq> ''.''"
    by blast
  from tb have b: "select_handler (example_config [(''.'', ?pd), (''example.com'', ?pe)])
       (example_query [''other.test.'']) = Inr (Some (''.'', ?pd))"
    by (simp add: example_config_def key_matches_examples)
  from tc have c: "handleDNS (example_env []) example_writer (example_query [''other.test.''])
       (example_config [(''example.com'', ?pe)]) example_world =
     Inr (example_world\<lparr>trace :=
       [Log Warn ''no handler for domain: other.test.'',
        WriteMsg example_writer (servfail_Msg (example_query [''other.test.'']))]\<rparr>)"
    by (simp add: example_config_def key_matches_examples example_world_def)
  from a b c show ?thesis by (intro conjI)
qed

subsection \<open>C9: a query without a question\<close>

text \<open>
  Claim C9, as amended. \<open>handleDNS\<close> reads \<^verbatim>\<open>req.Question[0]\<close> without a guard, in the
  loop at every key other than \<^verbatim>\<open>"."\<close> and in the branch without a handler. For a
  query with a question it never indexes out of range. For a query without a question
  it indexes out of range exactly when the configuration has a key other than \<^verbatim>\<open>"."\<close>
  or has no key \<^verbatim>\<open>"."\<close>; a configuration whose only key is \<^verbatim>\<open>"."\<close> handles such a
  query without reading \<^verbatim>\<open>req.Question[0]\<close>.
\<close>

theorem C9_question_index:
  "(Question req \<noteq> [] \<longrightarrow> (\<exists>s'. handleDNS e w req config s = Inr s')) \<and>
   (Question req = [] \<longrightarrow>
      (handleDNS e w req config s = Inl IndexOutOfRange) =
        ((\<exists>k\<in>fst ` set (Handlers config). k \<noteq> ''.'') \<or>
         map_of (Handlers config) ''.'' = None))"
proof (intro conjI impI)
  assume "Question req \<noteq> []"
  then obtain q qs where q: "Question req = q # qs" by (cases "Question req") auto
  show "\<exists>s'. handleDNS e w req config s = Inr s'"
  proof (cases "select_handler config req")
    case (Inl err)
    then show ?thesis by (simp add: select_handler_nonempty[OF q])
  next
    case (Inr found)
    show ?thesis
    proof (cases found)
      case None
      with Inr handleDNS_no_handler[OF _ q] show ?thesis by simp
    next
      case (Some kv)
      obtain ck c where kv: "kv = (ck, c)" by (cases kv)
      obtain s' where "action e w req ck c s = Inr s'" using action_returns by blast
      with Inr Some kv show ?thesis by (simp add: handleDNS_selected)
    qed
  qed
next
  assume e: "Question req = []"
  show "(handleDNS e w req config s = Inl IndexOutOfRange) =
        ((\<exists>k\<in>fst ` set (Handlers config). k \<noteq> ''.'') \<or>
         map_of (Handlers config) ''.'' = None)"
  proof (cases "\<exists>k\<in>fst ` set (Handlers config). k \<noteq> ''.''")
    case True
    then show ?thesis
      by (simp add: handleDNS_def select_handler_empty_question[OF e])
  next
    case nondefault: False
    show ?thesis
    proof (cases "map_of (Handlers config) ''.''")
      case None
      with nondefault show ?thesis
        by (simp add: handleDNS_def select_handler_empty_question[OF e] e index_Nil)
    next
      case (Some cnf)
      obtain s' where "action e w req ''.'' cnf s = Inr s'" using action_returns by blast
      with nondefault Some show ?thesis
        by (simp add: handleDNS_def select_handler_empty_question[OF e])
    qed
  qed
qed

theorem C9_question_index_witness:
  "(\<exists>s'. handleDNS (example_env []) example_writer (example_query [''a.example.com.''])
      (example_config [(''example.com'', example_policy\<lparr>Respond := ''203.0.113.5''\<rparr>)])
      example_world = Inr s') \<and>
   handleDNS (example_env []) example_writer (example_query [])
      (example_config [(''example.com'', example_policy\<lparr>Respond := ''203.0.113.5''\<rparr>)])
      example_world = Inl IndexOutOfRange \<and>
   handleDNS (example_env []) example_writer (example_query [])
      (example_config []) example_world = Inl IndexOutOfRange \<and>
   handleDNS (example_env []) example_writer (example_query [])
      (example_config [(''.'', example_policy\<lparr>Respond := ''203.0.113.5''\<rparr>)])
      example_world \<noteq> Inl IndexOutOfRange"
  using
    C9_question_index[of "example_query [''a.example.com.'']" "example_env []" example_writer
      "example_config [(''example.com'', example_policy\<lparr>Respond := ''203.0.113.5''\<rparr>)]"
      example_world]
    C9_question_index[of "example_query []" "example_env []" example_writer
      "example_config [(''example.com'', example_policy\<lparr>Respond := ''203.0.113.5''\<rparr>)]"
      example_world]
    C9_question_index[of "example_query []" "example_env []" example_writer
      "example_config []" example_world]
    C9_question_index[of "example_query []" "example_env []" example_writer
      "example_config [(''.'', example_policy\<lparr>Respond := ''203.0.113.5''\<rparr>)]"
      example_world]
  by (simp add: Question_example_query example_config_def)

theorem C9_default_only_counterexample:
  "handleDNS (example_env []) example_writer (example_query [])
      (example_config [(''.'', example_policy\<lparr>Respond := ''203.0.113.5''\<rparr>)])
      example_world =
     Inr (handleRespond (example_env []) example_writer (example_query []) ''203.0.113.5''
            example_world) \<and>
   answers (Inr (handleRespond (example_env []) example_writer (example_query [])
      ''203.0.113.5'' example_world)) = [[]]"
proof -
  let ?p = "example_policy\<lparr>Respond := ''203.0.113.5''\<rparr>"
  have sel: "select_handler (example_config [(''.'', ?p)]) (example_query []) =
      Inr (Some (''.'', ?p))"
    by (simp add: select_handler_def example_config_def)
  have act: "action (example_env []) example_writer (example_query []) ''.'' ?p example_world =
      Inr (handleRespond (example_env []) example_writer (example_query []) ''203.0.113.5''
             example_world)"
    by (simp add: action_def example_policy_def)
  have nfy: "notify (example_env []) example_writer (example_query []) ?p
      (handleRespond (example_env []) example_writer (example_query []) ''203.0.113.5''
         example_world) =
      handleRespond (example_env []) example_writer (example_query []) ''203.0.113.5''
         example_world"
    by (simp add: notify_def example_policy_def)
  have "handleDNS (example_env []) example_writer (example_query [])
      (example_config [(''.'', ?p)]) example_world =
     Inr (handleRespond (example_env []) example_writer (example_query []) ''203.0.113.5''
            example_world)"
    unfolding handleDNS_selected[OF sel] act by (simp only: sum.case nfy)
  moreover have "answers (Inr (handleRespond (example_env []) example_writer (example_query [])
      ''203.0.113.5'' example_world)) = [[]]"
    by (simp add: replies_handleRespond replies_example_world Answer_respond_Msg
        Question_example_query)
  ultimately show ?thesis by (rule conjI)
qed

subsection \<open>C10: only the first question selects the policy\<close>

text \<open>
  Claim C10. Two queries that have a question each and agree on the name of the first
  question select the same policy under the same key, whatever their other questions
  are; and \<open>handleRespond\<close> writes a reply whose answer section has one record per
  question of the query, every one built from the same literal.
\<close>

theorem C10_first_question_selects:
  assumes "Question req = q # qs" and "Question req' = q' # qs'"
    and "Question.Name q = Question.Name q'"
  shows "select_handler config req = select_handler config req' \<and>
    replies (handleRespond e w req respond s) = replies s @ [(w, respond_Msg e req respond)] \<and>
    Answer (respond_Msg e req respond) = map (\<lambda>x. respond_rr e x respond) (Question req)"
  using select_handler_first_name[OF assms]
  by (simp add: replies_handleRespond Answer_respond_Msg)

theorem C10_first_question_selects_witness:
  "select_handler
     (example_config [(''example.com'', example_policy\<lparr>Respond := ''203.0.113.5''\<rparr>)])
     (example_query [''a.example.com.'', ''other.test.'']) =
   select_handler
     (example_config [(''example.com'', example_policy\<lparr>Respond := ''203.0.113.5''\<rparr>)])
     (example_query [''a.example.com.'']) \<and>
   answers (Inr (handleRespond (example_env []) example_writer
      (example_query [''a.example.com.'', ''other.test.'']) ''203.0.113.5'' example_world)) =
     [[RR_A \<lparr>RR_Header.Name = ''a.example.com.'', Rrtype = TypeA, Class = ClassINET, Ttl = 0,
              Rdlength = 0\<rparr> (IPv4 203 0 113 5),
       RR_A \<lparr>RR_Header.Name = ''other.test.'', Rrtype = TypeA, Class = ClassINET, Ttl = 0,
              Rdlength = 0\<rparr> (IPv4 203 0 113 5)]]"
proof -
  let ?q = "\<lambda>n. \<lparr>Question.Name = n, Qtype = 1, Qclass = 1\<rparr>"
  have q2: "Question (example_query [''a.example.com.'', ''other.test.'']) =
      ?q ''a.example.com.'' # [?q ''other.test.'']"
    and q1: "Question (example_query [''a.example.com.'']) = ?q ''a.example.com.'' # []"
    by (simp_all add: Question_example_query)
  have n: "Question.Name (?q ''a.example.com.'') = Question.Name (?q ''a.example.com.'')" ..
  from C10_first_question_selects[OF q2 q1 n,
      of "example_config [(''example.com'', example_policy\<lparr>Respond := ''203.0.113.5''\<rparr>)]"
      "example_env []" example_writer "''203.0.113.5''" example_world]
  show ?thesis
    by (simp add: replies_example_world Question_example_query respond_rr_def ParseIP_example
        example_ParseIP_v4 To4_IPv4)
qed

subsection \<open>The action and the notifications\<close>

lemma notify_trace:
  "notify e w req c s =
     s\<lparr>trace := trace s @
        (if NotifyEmail c \<noteq> [] then [debouncedSendEmail (NotifyEmail c) (notify_body e w req)]
         else []) @
        (if NotifySlack c \<noteq> [] then [sendSlackMessage (NotifySlack c) (notify_body e w req)]
         else [])\<rparr>"
  by (simp add: notify_def Let_def emit_def)

lemma action_redirect:
  "Redirect c \<noteq> [] \<Longrightarrow> action e w req ck c s = Inr (handleRedirect e w req (Redirect c) s)"
  by (simp add: action_def)

lemma action_respond:
  "Redirect c = [] \<Longrightarrow> Respond c \<noteq> [] \<Longrightarrow>
   action e w req ck c s = Inr (handleRespond e w req (Respond c) s)"
  by (simp add: action_def)

lemma action_rebind:
  assumes "Redirect c = []" and "Respond c = []" and "Rebind c = Some rc" and "Addrs rc \<noteq> []"
  shows "action e w req ck c s =
     Inr (handleRespond e w req (Addrs rc ! (unat (counter s ck) mod length (Addrs rc)))
            (s\<lparr>RebindMap := (RebindMap s)(ck \<mapsto> counter s ck + 1)\<rparr>))"
  using assms by (simp add: action_def index_def Let_def)

lemma action_none:
  assumes "Redirect c = []" and "Respond c = []"
    and "Rebind c = None \<or> (\<exists>rc. Rebind c = Some rc \<and> Addrs rc = [])"
  shows "action e w req ck c s = Inr s"
  using assms by (auto simp: action_def)

subsection \<open>C1: a policy without an action\<close>

text \<open>
  Claim C1, as amended. When the selected policy has an empty redirect, an empty
  respond, and a rebind that is absent or has no address, \<open>handleDNS\<close> writes no
  message to the client at all: it adds to the trace only the notifications the policy
  asks for, makes no upstream exchange and leaves the rebind counters as they are.
\<close>

theorem C1_no_action_no_reply:
  assumes "select_handler config req = Inr (Some (ck, c))"
    and "Redirect c = []" and "Respond c = []"
    and "Rebind c = None \<or> (\<exists>rc. Rebind c = Some rc \<and> Addrs rc = [])"
  shows "handleDNS e w req config s =
      Inr (s\<lparr>trace := trace s @
        (if NotifyEmail c \<noteq> [] then [debouncedSendEmail (NotifyEmail c) (notify_body e w req)]
         else []) @
        (if NotifySlack c \<noteq> [] then [sendSlackMessage (NotifySlack c) (notify_body e w req)]
         else [])\<rparr>) \<and>
    answers (handleDNS e w req config s) = answers (Inr s)"
proof -
  have h: "handleDNS e w req config s = Inr (notify e w req c s)"
    by (simp add: handleDNS_selected[OF assms(1)] action_none[OF assms(2-4)])
  show ?thesis
    unfolding h by (simp add: replies_notify) (simp add: notify_trace)
qed

theorem C1_no_action_no_reply_witness:
  "select_handler
     (example_config [(''example.com'', example_policy\<lparr>NotifySlack := ''#dns'', Rebind := Some \<lparr>Addrs = []\<rparr>\<rparr>)])
     (example_query [''a.example.com.'']) =
     Inr (Some (''example.com'', example_policy\<lparr>NotifySlack := ''#dns'', Rebind := Some \<lparr>Addrs = []\<rparr>\<rparr>)) \<and>
   handleDNS (example_env []) example_writer (example_query [''a.example.com.''])
     (example_config [(''example.com'', example_policy\<lparr>NotifySlack := ''#dns'', Rebind := Some \<lparr>Addrs = []\<rparr>\<rparr>)])
     example_world =
     Inr (example_world\<lparr>trace :=
       [sendSlackMessage ''#dns''
          (notify_body (example_env []) example_writer (example_query [''a.example.com.'']))]\<rparr>)"
proof -
  let ?p = "example_policy\<lparr>NotifySlack := ''#dns'', Rebind := Some \<lparr>Addrs = []\<rparr>\<rparr>"
  have sel: "select_handler (example_config [(''example.com'', ?p)])
      (example_query [''a.example.com.'']) = Inr (Some (''example.com'', ?p))"
    by (simp add: select_handler_def example_config_def Question_example_query index_def
        key_matches_examples)
  have p: "Redirect ?p = []" "Respond ?p = []"
    "Rebind ?p = None \<or> (\<exists>rc. Rebind ?p = Some rc \<and> Addrs rc = [])"
    by (simp_all add: example_policy_def)
  from C1_no_action_no_reply[OF sel p, of "example_env []" example_writer example_world]
  have "handleDNS (example_env []) example_writer (example_query [''a.example.com.''])
     (example_config [(''example.com'', ?p)]) example_world =
     Inr (example_world\<lparr>trace :=
       [sendSlackMessage ''#dns''
          (notify_body (example_env []) example_writer (example_query [''a.example.com.'']))]\<rparr>)"
    by (simp add: example_policy_def example_world_def)
  with sel show ?thesis by (rule conjI)
qed

theorem C1_no_reply_counterexample:
  "handleDNS (example_env []) example_writer (example_query [''a.example.com.''])
     (example_config [(''example.com'', example_policy\<lparr>NotifyEmail := ''ops@example.com''\<rparr>)])
     example_world =
     Inr (example_world\<lparr>trace :=
       [debouncedSendEmail ''ops@example.com''
          (notify_body (example_env []) example_writer (example_query [''a.example.com.'']))]\<rparr>) \<and>
   answers (Inr (example_world\<lparr>trace :=
       [debouncedSendEmail ''ops@example.com''
          (notify_body (example_env []) example_writer (example_query [''a.example.com.'']))]\<rparr>)) = []"
proof -
  let ?p = "example_policy\<lparr>NotifyEmail := ''ops@example.com''\<rparr>"
  have sel: "select_handler (example_config [(''example.com'', ?p)])
      (example_query [''a.example.com.'']) = Inr (Some (''example.com'', ?p))"
    by (simp add: select_handler_def example_config_def Question_example_query index_def
        key_matches_examples)
  have act: "action (example_env []) example_writer (example_query [''a.example.com.''])
      ''example.com'' ?p example_world = Inr example_world"
    by (simp add: action_def example_policy_def)
  have nfy: "notify (example_env []) example_writer (example_query [''a.example.com.'']) ?p
      example_world =
      example_world\<lparr>trace :=
       [debouncedSendEmail ''ops@example.com''
          (notify_body (example_env []) example_writer (example_query [''a.example.com.'']))]\<rparr>"
    by (simp add: notify_trace example_policy_def example_world_def)
  have "handleDNS (example_env []) example_writer (example_query [''a.example.com.''])
     (example_config [(''example.com'', ?p)]) example_world =
     Inr (example_world\<lparr>trace :=
       [debouncedSendEmail ''ops@example.com''
          (notify_body (example_env []) example_writer (example_query [''a.example.com.'']))]\<rparr>)"
    unfolding handleDNS_selected[OF sel] act by (simp only: sum.case nfy)
  moreover have "answers (Inr (example_world\<lparr>trace :=
       [debouncedSendEmail ''ops@example.com''
          (notify_body (example_env []) example_writer (example_query [''a.example.com.'']))]\<rparr>)) = []"
    by (simp add: replies_def)
  ultimately show ?thesis by (rule conjI)
qed

subsection \<open>C3: the priority of the actions\<close>

lemma handleRedirect_never_synthesizes:
  "\<exists>m. replies (handleRedirect e w req redirect s) = replies s @ [(w, m)] \<and>
       (\<forall>lit. m \<noteq> respond_Msg e req lit)"
proof -
  from handleRedirect_cases[of e w req redirect s] obtain m where
    r: "replies (handleRedirect e w req redirect s) = replies s @ [(w, m)]"
    and m: "Compress m \<or> m = servfail_Msg req" by blast
  have "m \<noteq> respond_Msg e req lit" for lit
  proof
    assume eq: "m = respond_Msg e req lit"
    from m show False
    proof
      assume "Compress m"
      with eq show False by (simp add: Compress_respond_Msg)
    next
      assume "m = servfail_Msg req"
      with eq have "Rcode (servfail_Msg req) = Rcode (respond_Msg e req lit)" by simp
      then show False
        by (simp add: Rcode_servfail Rcode_respond_Msg RcodeServerFailure_def RcodeSuccess_def)
    qed
  qed
  with r show ?thesis by blast
qed

text \<open>
  Claim C3, as amended. For the selected policy, \<open>handleDNS\<close> takes the first of three
  actions whose condition holds, if any, and then issues the notifications. With a
  non-empty redirect it runs \<open>handleRedirect\<close> on that address, whatever respond and rebind
  hold: one message is written, which is never a synthesized reply, and no rebind
  counter changes. Otherwise, with a non-empty respond, it runs \<open>handleRespond\<close> on that
  literal, whatever rebind holds: the one message written is the synthesized reply, and
  no rebind counter changes. Otherwise, with a non-empty rebind list, it increments the
  counter of the key and runs \<open>handleRespond\<close> on the address the counter selects. In
  each of these cases exactly one message is written to the client. Otherwise (no
  redirect, no respond, no address to rebind to) it takes no action: no message is
  written, no rebind counter changes and no upstream exchange is made. So at most one
  action is taken per query, and exactly one when the policy configures one.
\<close>

theorem C3_action_priority:
  assumes "select_handler config req = Inr (Some (ck, c))"
  shows "(Redirect c \<noteq> [] \<longrightarrow>
       handleDNS e w req config s =
         Inr (notify e w req c (handleRedirect e w req (Redirect c) s)) \<and>
       (\<exists>m. answers (handleDNS e w req config s) = answers (Inr s) @ [Answer m] \<and>
          replies (handleRedirect e w req (Redirect c) s) = replies s @ [(w, m)] \<and>
          (\<forall>lit. m \<noteq> respond_Msg e req lit)) \<and>
       RebindMap (notify e w req c (handleRedirect e w req (Redirect c) s)) = RebindMap s) \<and>
    (Redirect c = [] \<and> Respond c \<noteq> [] \<longrightarrow>
       handleDNS e w req config s =
         Inr (notify e w req c (handleRespond e w req (Respond c) s)) \<and>
       answers (handleDNS e w req config s) =
         answers (Inr s) @ [Answer (respond_Msg e req (Respond c))] \<and>
       RebindMap (notify e w req c (handleRespond e w req (Respond c) s)) = RebindMap s \<and>
       exchanges (notify e w req c (handleRespond e w req (Respond c) s)) = exchanges s) \<and>
    (\<forall>rc. Redirect c = [] \<and> Respond c = [] \<and> Rebind c = Some rc \<and> Addrs rc \<noteq> [] \<longrightarrow>
       handleDNS e w req config s =
         Inr (notify e w req c
                (handleRespond e w req (Addrs rc ! (unat (counter s ck) mod length (Addrs rc)))
                   (s\<lparr>RebindMap := (RebindMap s)(ck \<mapsto> counter s ck + 1)\<rparr>))) \<and>
       answers (handleDNS e w req config s) =
         answers (Inr s) @
           [Answer (respond_Msg e req (Addrs rc ! (unat (counter s ck) mod length (Addrs rc))))]) \<and>
    (Redirect c = [] \<and> Respond c = [] \<and>
       (Rebind c = None \<or> (\<exists>rc. Rebind c = Some rc \<and> Addrs rc = [])) \<longrightarrow>
       handleDNS e w req config s = Inr (notify e w req c s) \<and>
       answers (handleDNS e w req config s) = answers (Inr s) \<and>
       RebindMap (notify e w req c s) = RebindMap s \<and>
       exchanges (notify e w req c s) = exchanges s)"
proof (intro conjI impI allI)
  assume a: "Redirect c \<noteq> []"
  show h: "handleDNS e w req config s =
      Inr (notify e w req c (handleRedirect e w req (Redirect c) s))"
    by (simp add: handleDNS_selected[OF assms] action_redirect[OF a])
  from handleRedirect_never_synthesizes[of e w req "Redirect c" s] obtain m where
    m: "replies (handleRedirect e w req (Redirect c) s) = replies s @ [(w, m)]"
      "\<forall>lit. m \<noteq> respond_Msg e req lit" by blast
  have "answers (handleDNS e w req config s) = answers (Inr s) @ [Answer m]"
    unfolding h by (simp add: replies_notify m(1))
  with m show "\<exists>m. answers (handleDNS e w req config s) = answers (Inr s) @ [Answer m] \<and>
          replies (handleRedirect e w req (Redirect c) s) = replies s @ [(w, m)] \<and>
          (\<forall>lit. m \<noteq> respond_Msg e req lit)" by blast
  from handleRedirect_cases[of e w req "Redirect c" s]
  show "RebindMap (notify e w req c (handleRedirect e w req (Redirect c) s)) = RebindMap s"
    by (auto simp: RebindMap_notify)
next
  assume a: "Redirect c = [] \<and> Respond c \<noteq> []"
  show h: "handleDNS e w req config s =
      Inr (notify e w req c (handleRespond e w req (Respond c) s))"
    using a by (simp add: handleDNS_selected[OF assms] action_respond)
  show "answers (handleDNS e w req config s) =
         answers (Inr s) @ [Answer (respond_Msg e req (Respond c))]"
    unfolding h by (simp add: replies_notify replies_handleRespond)
  show "RebindMap (notify e w req c (handleRespond e w req (Respond c) s)) = RebindMap s"
    by (simp add: RebindMap_notify RebindMap_handleRespond)
  show "exchanges (notify e w req c (handleRespond e w req (Respond c) s)) = exchanges s"
    by (simp add: exchanges_notify exchanges_handleRespond)
next
  fix rc
  assume a: "Redirect c = [] \<and> Respond c = [] \<and> Rebind c = Some rc \<and> Addrs rc \<noteq> []"
  then have a': "Redirect c = []" "Respond c = []" "Rebind c = Some rc" "Addrs rc \<noteq> []"
    by simp_all
  show h: "handleDNS e w req config s =
         Inr (notify e w req c
                (handleRespond e w req (Addrs rc ! (unat (counter s ck) mod length (Addrs rc)))
                   (s\<lparr>RebindMap := (RebindMap s)(ck \<mapsto> counter s ck + 1)\<rparr>)))"
    by (simp add: handleDNS_selected[OF assms] action_rebind[OF a'])
  show "answers (handleDNS e w req config s) =
         answers (Inr s) @
           [Answer (respond_Msg e req (Addrs rc ! (unat (counter s ck) mod length (Addrs rc))))]"
    unfolding h by (simp add: replies_notify replies_handleRespond) (simp add: replies_def)
next
  assume a: "Redirect c = [] \<and> Respond c = [] \<and>
       (Rebind c = None \<or> (\<exists>rc. Rebind c = Some rc \<and> Addrs rc = []))"
  then have a': "Redirect c = []" "Respond c = []"
    "Rebind c = None \<or> (\<exists>rc. Rebind c = Some rc \<and> Addrs rc = [])"
    by simp_all
  show h: "handleDNS e w req config s = Inr (notify e w req c s)"
    by (simp add: handleDNS_selected[OF assms] action_none[OF a'])
  show "answers (handleDNS e w req config s) = answers (Inr s)"
    unfolding h by (simp add: replies_notify)
  show "RebindMap (notify e w req c s) = RebindMap s" by (rule RebindMap_notify)
  show "exchanges (notify e w req c s) = exchanges s" by (rule exchanges_notify)
qed

theorem C3_action_priority_witness:
  "answers (handleDNS (example_env [Inr example_upstream_reply]) example_writer
      (example_query [''a.example.com.''])
      (example_config [(''example.com'',
         example_policy\<lparr>Redirect := ''9.9.9.9:53'', Respond := ''203.0.113.5'',
           Rebind := Some \<lparr>Addrs = [''10.0.0.1'']\<rparr>\<rparr>)])
      example_world) = [Answer example_upstream_reply] \<and>
   answers (handleDNS (example_env []) example_writer (example_query [''a.example.com.''])
      (example_config [(''example.com'',
         example_policy\<lparr>Respond := ''203.0.113.5'', Rebind := Some \<lparr>Addrs = [''10.0.0.1'']\<rparr>\<rparr>)])
      example_world) =
     [[RR_A \<lparr>RR_Header.Name = ''a.example.com.'', Rrtype = TypeA, Class = ClassINET, Ttl = 0,
              Rdlength = 0\<rparr> (IPv4 203 0 113 5)]] \<and>
   answers (handleDNS (example_env []) example_writer (example_query [''a.example.com.''])
      (example_config [(''example.com'',
         example_policy\<lparr>Rebind := Some \<lparr>Addrs = [''10.0.0.1'', ''10.0.0.2'']\<rparr>\<rparr>)])
      example_world) =
     [[RR_A \<lparr>RR_Header.Name = ''a.example.com.'', Rrtype = TypeA, Class = ClassINET, Ttl = 0,
              Rdlength = 0\<rparr> (IPv4 10 0 0 1)]] \<and>
   answers (handleDNS (example_env []) example_writer (example_query [''a.example.com.''])
      (example_config [(''example.com'', example_policy\<lparr>NotifySlack := ''#ops''\<rparr>)])
      example_world) = []"
proof -
  let ?p4 = "example_policy\<lparr>NotifySlack := ''#ops''\<rparr>"
  let ?Q = "example_query [''a.example.com.'']"
  let ?p1 = "example_policy\<lparr>Redirect := ''9.9.9.9:53'', Respond := ''203.0.113.5'',
           Rebind := Some \<lparr>Addrs = [''10.0.0.1'']\<rparr>\<rparr>"
  let ?p2 = "example_policy\<lparr>Respond := ''203.0.113.5'', Rebind := Some \<lparr>Addrs = [''10.0.0.1'']\<rparr>\<rparr>"
  let ?p3 = "example_policy\<lparr>Rebind := Some \<lparr>Addrs = [''10.0.0.1'', ''10.0.0.2'']\<rparr>\<rparr>"
  have sel: "select_handler (example_config [(''example.com'', p)]) ?Q =
      Inr (Some (''example.com'', p))" for p
    by (simp add: select_handler_def example_config_def Question_example_query index_def
        key_matches_examples)
  note t1 = C3_action_priority[OF sel[of ?p1], of "example_env [Inr example_upstream_reply]"
      example_writer example_world]
  note t2 = C3_action_priority[OF sel[of ?p2], of "example_env []" example_writer example_world]
  note t3 = C3_action_priority[OF sel[of ?p3], of "example_env []" example_writer example_world]
  note t4 = C3_action_priority[OF sel[of ?p4], of "example_env []" example_writer example_world]
  have r4: "Redirect ?p4 = [] \<and> Respond ?p4 = [] \<and>
      (Rebind ?p4 = None \<or> (\<exists>rc. Rebind ?p4 = Some rc \<and> Addrs rc = []))"
    by (simp add: example_policy_def)
  with t4 have "answers (handleDNS (example_env []) example_writer ?Q
      (example_config [(''example.com'', ?p4)]) example_world) = answers (Inr example_world)"
    by blast
  then have d: "answers (handleDNS (example_env []) example_writer ?Q
      (example_config [(''example.com'', ?p4)]) example_world) = []"
    by (simp add: replies_example_world)
  have r1: "Redirect ?p1 \<noteq> []" by (simp add: example_policy_def)
  have x: "Exchange (example_env [Inr example_upstream_reply]) (exchanges example_world)
      (client_net example_writer) ?Q (Redirect ?p1) = Inr example_upstream_reply"
    by (simp add: example_exchange exchanges_example_world)
  have f: "replies (handleRedirect (example_env [Inr example_upstream_reply]) example_writer ?Q
      (Redirect ?p1) example_world) = [(example_writer, example_upstream_reply\<lparr>Compress := True\<rparr>)]"
    using handleRedirect_first(1)[OF x] by (simp add: replies_example_world)
  from t1 r1 obtain m where
    "answers (handleDNS (example_env [Inr example_upstream_reply]) example_writer ?Q
       (example_config [(''example.com'', ?p1)]) example_world) =
     answers (Inr example_world) @ [Answer m]"
    "replies (handleRedirect (example_env [Inr example_upstream_reply]) example_writer ?Q
      (Redirect ?p1) example_world) = replies example_world @ [(example_writer, m)]"
    by blast
  with f have a: "answers (handleDNS (example_env [Inr example_upstream_reply]) example_writer ?Q
       (example_config [(''example.com'', ?p1)]) example_world) = [Answer example_upstream_reply]"
    by (auto simp: replies_example_world)
  have r2: "Redirect ?p2 = [] \<and> Respond ?p2 \<noteq> []" by (simp add: example_policy_def)
  with t2 have "answers (handleDNS (example_env []) example_writer ?Q
      (example_config [(''example.com'', ?p2)]) example_world) =
     answers (Inr example_world) @ [Answer (respond_Msg (example_env []) ?Q (Respond ?p2))]"
    by blast
  then have b: "answers (handleDNS (example_env []) example_writer ?Q
      (example_config [(''example.com'', ?p2)]) example_world) =
     [[RR_A \<lparr>RR_Header.Name = ''a.example.com.'', Rrtype = TypeA, Class = ClassINET, Ttl = 0,
              Rdlength = 0\<rparr> (IPv4 203 0 113 5)]]"
    by (simp add: replies_example_world Answer_respond_Msg Question_example_query respond_rr_def
        ParseIP_example example_ParseIP_def To4_IPv4 example_policy_def)
  have r3: "Redirect ?p3 = [] \<and> Respond ?p3 = [] \<and>
      Rebind ?p3 = Some \<lparr>Addrs = [''10.0.0.1'', ''10.0.0.2'']\<rparr> \<and>
      Addrs \<lparr>Addrs = [''10.0.0.1'', ''10.0.0.2'']\<rparr> \<noteq> []"
    by (simp add: example_policy_def)
  with t3 have "answers (handleDNS (example_env []) example_writer ?Q
      (example_config [(''example.com'', ?p3)]) example_world) =
     answers (Inr example_world) @
       [Answer (respond_Msg (example_env []) ?Q
          ([''10.0.0.1'', ''10.0.0.2''] !
             (unat (counter example_world ''example.com'') mod
              length (Addrs \<lparr>Addrs = [''10.0.0.1'', ''10.0.0.2'']\<rparr>))))]"
    by (metis MadnsRebindConfig.select_convs(1))
  then have c: "answers (handleDNS (example_env []) example_writer ?Q
      (example_config [(''example.com'', ?p3)]) example_world) =
     [[RR_A \<lparr>RR_Header.Name = ''a.example.com.'', Rrtype = TypeA, Class = ClassINET, Ttl = 0,
              Rdlength = 0\<rparr> (IPv4 10 0 0 1)]]"
    by (simp add: replies_example_world Answer_respond_Msg Question_example_query respond_rr_def
        ParseIP_example example_ParseIP_def To4_IPv4 counter_def example_world_def replies_def)
  from a b c d show ?thesis by (intro conjI)
qed

theorem C3_no_action_counterexample:
  "select_handler (example_config [(''example.com'', example_policy)])
     (example_query [''a.example.com.'']) = Inr (Some (''example.com'', example_policy)) \<and>
   handleDNS (example_env []) example_writer (example_query [''a.example.com.''])
     (example_config [(''example.com'', example_policy)]) example_world = Inr example_world"
proof -
  have sel: "select_handler (example_config [(''example.com'', example_policy)])
      (example_query [''a.example.com.'']) = Inr (Some (''example.com'', example_policy))"
    by (simp add: select_handler_def example_config_def Question_example_query index_def
        key_matches_examples)
  have act: "action (example_env []) example_writer (example_query [''a.example.com.''])
      ''example.com'' example_policy example_world = Inr example_world"
    by (simp add: action_def example_policy_def)
  have nfy: "notify (example_env []) example_writer (example_query [''a.example.com.''])
      example_policy example_world = example_world"
    by (simp add: notify_def example_policy_def)
  have "handleDNS (example_env []) example_writer (example_query [''a.example.com.''])
     (example_config [(''example.com'', example_policy)]) example_world = Inr example_world"
    unfolding handleDNS_selected[OF sel] act by (simp only: sum.case nfy)
  with sel show ?thesis by (rule conjI)
qed


subsection \<open>Sequential dispatches of a rebind policy\<close>

lemma counter_update: "counter (s\<lparr>RebindMap := (RebindMap s)(k \<mapsto> v)\<rparr>) k = v"
  by (simp add: counter_def)

lemma counter_cong: "RebindMap s = RebindMap s' \<Longrightarrow> counter s k = counter s' k"
  by (simp add: counter_def)

lemma rebind_dispatch:
  assumes "select_handler config req = Inr (Some (k, c))"
    and "Redirect c = []" and "Respond c = []" and "Rebind c = Some rc" and "Addrs rc \<noteq> []"
  shows "\<exists>s'. handleDNS e w req config s = Inr s' \<and>
    replies s' = replies s @
      [(w, respond_Msg e req (Addrs rc ! (unat (counter s k) mod length (Addrs rc))))] \<and>
    counter s' k = counter s k + 1"
proof -
  let ?s1 = "s\<lparr>RebindMap := (RebindMap s)(k \<mapsto> counter s k + 1)\<rparr>"
  let ?s2 = "handleRespond e w req (Addrs rc ! (unat (counter s k) mod length (Addrs rc))) ?s1"
  have h: "handleDNS e w req config s = Inr (notify e w req c ?s2)"
    by (simp add: handleDNS_selected[OF assms(1)] action_rebind[OF assms(2-5)])
  have "replies ?s1 = replies s" by (simp add: replies_def)
  then have r: "replies (notify e w req c ?s2) = replies s @
      [(w, respond_Msg e req (Addrs rc ! (unat (counter s k) mod length (Addrs rc))))]"
    by (simp add: replies_notify replies_handleRespond)
  have "counter (notify e w req c ?s2) k = counter ?s1 k"
    by (rule counter_cong) (simp add: RebindMap_notify RebindMap_handleRespond)
  then have c: "counter (notify e w req c ?s2) k = counter s k + 1"
    by (simp only: counter_update)
  from h r c show ?thesis by blast
qed

lemma dispatches_rebind:
  assumes "Redirect c = []" and "Respond c = []" and "Rebind c = Some rc" and "Addrs rc \<noteq> []"
  shows "(\<forall>(w, req, config)\<in>set calls. select_handler config req = Inr (Some (k, c))) \<Longrightarrow>
    \<exists>s'. dispatches e calls s = Inr s' \<and>
      replies s' = replies s @
        map (\<lambda>(j, w, req, config).
               (w, respond_Msg e req
                     (Addrs rc ! (unat (counter s k + of_nat j) mod length (Addrs rc)))))
          (enumerate 0 calls) \<and>
      counter s' k = counter s k + of_nat (length calls)"
proof (induction calls arbitrary: s)
  case Nil
  show ?case by simp
next
  case (Cons call calls)
  obtain w req config where call: "call = (w, req, config)" by (cases call)
  from Cons.prems call have sel: "select_handler config req = Inr (Some (k, c))" by simp
  from rebind_dispatch[OF sel assms, of e w s] obtain s1 where
    s1: "handleDNS e w req config s = Inr s1"
      "replies s1 = replies s @
        [(w, respond_Msg e req (Addrs rc ! (unat (counter s k) mod length (Addrs rc))))]"
      "counter s1 k = counter s k + 1" by blast
  from Cons.prems have "\<forall>(w, req, config)\<in>set calls. select_handler config req = Inr (Some (k, c))"
    by simp
  from Cons.IH[OF this, of s1] obtain s' where
    s': "dispatches e calls s1 = Inr s'"
      "replies s' = replies s1 @
        map (\<lambda>(j, w, req, config).
               (w, respond_Msg e req
                     (Addrs rc ! (unat (counter s1 k + of_nat j) mod length (Addrs rc)))))
          (enumerate 0 calls)"
      "counter s' k = counter s1 k + of_nat (length calls)" by blast
  have d: "dispatches e (call # calls) s = Inr s'"
    by (simp add: call s1(1) s'(1))
  have m: "map (\<lambda>(j, w, req, config).
               (w, respond_Msg e req
                     (Addrs rc ! (unat (counter s k + of_nat j) mod length (Addrs rc)))))
          (enumerate (Suc 0) calls) =
        map (\<lambda>(j, w, req, config).
               (w, respond_Msg e req
                     (Addrs rc ! (unat (counter s1 k + of_nat j) mod length (Addrs rc)))))
          (enumerate 0 calls)"
    by (simp add: enumerate_Suc_eq[of 0] s1(3) split_def ac_simps)
  have r: "replies s' = replies s @
        map (\<lambda>(j, w, req, config).
               (w, respond_Msg e req
                     (Addrs rc ! (unat (counter s k + of_nat j) mod length (Addrs rc)))))
          (enumerate 0 (call # calls))"
    by (simp add: s'(2) s1(2) call m[symmetric])
  have c: "counter s' k = counter s k + of_nat (length (call # calls))"
    by (simp add: s'(3) s1(3))
  from d r c show ?case by blast
qed

lemma rebind_run_nth:
  assumes "select_handler config req = Inr (Some (k, c))"
    and "Redirect c = []" and "Respond c = []" and "Rebind c = Some rc" and "Addrs rc \<noteq> []"
    and "j < N"
  shows "answers (dispatches e (replicate N (w, req, config)) s) ! (length (replies s) + j) =
    Answer (respond_Msg e req
      (Addrs rc ! (unat (counter s k + of_nat j) mod length (Addrs rc))))"
proof -
  have "\<forall>(w, req, config)\<in>set (replicate N (w, req, config)).
      select_handler config req = Inr (Some (k, c))"
    using assms(1) by (simp add: set_replicate_conv_if)
  from dispatches_rebind[OF assms(2-5) this, of e s] obtain s' where
    s': "dispatches e (replicate N (w, req, config)) s = Inr s'"
      "replies s' = replies s @
        map (\<lambda>(j, w, req, config).
               (w, respond_Msg e req
                     (Addrs rc ! (unat (counter s k + of_nat j) mod length (Addrs rc)))))
          (enumerate 0 (replicate N (w, req, config)))" by blast
  have "enumerate 0 (replicate N (w, req, config)) ! j = (j, w, req, config)"
    using assms(6) by (simp add: nth_enumerate_eq)
  then show ?thesis
    using assms(6) by (simp add: s' nth_append)
qed

subsection \<open>C2: the order of the rebind answers\<close>

text \<open>
  Claim C2, as amended. Let every call of a run select the same policy under the same
  key \<open>k\<close>, a policy with empty redirect and respond and a rebind list of \<open>n > 0\<close>
  addresses, and let \<open>k\<close> have no counter yet. If the run has at most \<open>2^64\<close> calls,
  it does not fail and the reply to call number \<open>j\<close> (counted from 0) is the reply
  synthesized from the address at index \<open>j mod n\<close>: the addresses are used in cyclic
  order, starting at index 0. (The counter has 64 bits; dispatch number \<open>2^64 + 1\<close>
  starts again at index 0 whatever \<open>n\<close> is; and a policy that also has a redirect or a
  respond never reaches its rebind list.)
\<close>

theorem C2_rebind_round_robin:
  assumes "\<forall>(w, req, config)\<in>set calls. select_handler config req = Inr (Some (k, c))"
    and "Redirect c = []" and "Respond c = []" and "Rebind c = Some rc" and "Addrs rc \<noteq> []"
    and "RebindMap s k = None"
    and "length calls \<le> 2 ^ 64"
  shows "\<exists>s'. dispatches e calls s = Inr s' \<and>
    replies s' = replies s @
      map (\<lambda>(j, w, req, config).
             (w, respond_Msg e req (Addrs rc ! (j mod length (Addrs rc)))))
        (enumerate 0 calls)"
proof -
  have z: "counter s k = 0" using assms(6) by (simp add: counter_def)
  from dispatches_rebind[OF assms(2-5) assms(1), of e s] obtain s' where
    s': "dispatches e calls s = Inr s'"
      "replies s' = replies s @
        map (\<lambda>(j, w, req, config).
               (w, respond_Msg e req
                     (Addrs rc ! (unat (counter s k + of_nat j) mod length (Addrs rc)))))
          (enumerate 0 calls)" by blast
  have "unat (counter s k + of_nat j) = j" if "j < length calls" for j
  proof -
    from that assms(7) have "j < 2 ^ 64" by simp
    then show ?thesis by (simp add: z unat_of_nat)
  qed
  then have "map (\<lambda>(j, w, req, config).
               (w, respond_Msg e req
                     (Addrs rc ! (unat (counter s k + of_nat j) mod length (Addrs rc)))))
          (enumerate 0 calls) =
        map (\<lambda>(j, w, req, config).
             (w, respond_Msg e req (Addrs rc ! (j mod length (Addrs rc)))))
          (enumerate 0 calls)"
    by (intro map_cong refl) (auto simp: in_set_enumerate_eq)
  with s' show ?thesis by simp
qed

theorem C2_rebind_round_robin_witness:
  "answers (dispatches (example_env [])
      [(example_writer, example_query [''rebind.test.''],
        example_config [(''rebind.test'',
          example_policy\<lparr>Rebind := Some \<lparr>Addrs = [''10.0.0.1'', ''10.0.0.2'']\<rparr>\<rparr>),
          (''.'', example_policy\<lparr>Respond := ''10.0.0.3''\<rparr>)]),
       (example_writer, example_query [''rebind.test.''],
        example_config [(''.'', example_policy\<lparr>Respond := ''10.0.0.3''\<rparr>),
          (''rebind.test'',
           example_policy\<lparr>Rebind := Some \<lparr>Addrs = [''10.0.0.1'', ''10.0.0.2'']\<rparr>\<rparr>)]),
       (example_writer, example_query [''rebind.test.''],
        example_config [(''rebind.test'',
          example_policy\<lparr>Rebind := Some \<lparr>Addrs = [''10.0.0.1'', ''10.0.0.2'']\<rparr>\<rparr>)])]
      example_world) =
     [[RR_A \<lparr>RR_Header.Name = ''rebind.test.'', Rrtype = TypeA, Class = ClassINET, Ttl = 0,
              Rdlength = 0\<rparr> (IPv4 10 0 0 1)],
      [RR_A \<lparr>RR_Header.Name = ''rebind.test.'', Rrtype = TypeA, Class = ClassINET, Ttl = 0,
              Rdlength = 0\<rparr> (IPv4 10 0 0 2)],
      [RR_A \<lparr>RR_Header.Name = ''rebind.test.'', Rrtype = TypeA, Class = ClassINET, Ttl = 0,
              Rdlength = 0\<rparr> (IPv4 10 0 0 1)]]"
proof -
  let ?p = "example_policy\<lparr>Rebind := Some \<lparr>Addrs = [''10.0.0.1'', ''10.0.0.2'']\<rparr>\<rparr>"
  let ?d = "example_policy\<lparr>Respond := ''10.0.0.3''\<rparr>"
  let ?Q = "example_query [''rebind.test.'']"
  let ?calls = "[(example_writer, ?Q, example_config [(''rebind.test'', ?p), (''.'', ?d)]),
       (example_writer, ?Q, example_config [(''.'', ?d), (''rebind.test'', ?p)]),
       (example_writer, ?Q, example_config [(''rebind.test'', ?p)])]"
  have sel: "\<forall>(w, req, config)\<in>set ?calls.
      select_handler config req = Inr (Some (''rebind.test'', ?p))"
    by (simp add: select_handler_def example_config_def Question_example_query index_def
        key_matches_examples)
  have pol: "Redirect ?p = []" "Respond ?p = []"
    "Rebind ?p = Some \<lparr>Addrs = [''10.0.0.1'', ''10.0.0.2'']\<rparr>"
    "Addrs \<lparr>Addrs = [''10.0.0.1'', ''10.0.0.2'']\<rparr> \<noteq> []"
    by (simp_all add: example_policy_def)
  have fresh: "RebindMap example_world ''rebind.test'' = None"
    by (simp add: example_world_def)
  have len: "length ?calls \<le> 2 ^ 64" by simp
  from C2_rebind_round_robin[OF sel pol fresh len, of "example_env []"] obtain s' where
    "dispatches (example_env []) ?calls example_world = Inr s'"
    "replies s' = replies example_world @
      map (\<lambda>(j, w, req, config).
             (w, respond_Msg (example_env []) req
                   (Addrs \<lparr>Addrs = [''10.0.0.1'', ''10.0.0.2'']\<rparr> !
                      (j mod length (Addrs \<lparr>Addrs = [''10.0.0.1'', ''10.0.0.2'']\<rparr>)))))
        (enumerate 0 ?calls)" by blast
  then show ?thesis
    by (simp add: replies_example_world Answer_respond_Msg Question_example_query respond_rr_def
        ParseIP_example example_ParseIP_def To4_IPv4)
qed

theorem C2_counter_wraps_counterexample:
  "answers (dispatches (example_env [])
      (replicate (2 ^ 64 + 1)
         (example_writer, example_query [''rebind.test.''],
          example_config [(''rebind.test'',
            example_policy\<lparr>Rebind :=
              Some \<lparr>Addrs = [''10.0.0.1'', ''10.0.0.2'', ''10.0.0.3'']\<rparr>\<rparr>)]))
      example_world) ! (2 ^ 64) =
     [RR_A \<lparr>RR_Header.Name = ''rebind.test.'', Rrtype = TypeA, Class = ClassINET, Ttl = 0,
             Rdlength = 0\<rparr> (IPv4 10 0 0 1)] \<and>
   [''10.0.0.1'', ''10.0.0.2'', ''10.0.0.3''] ! (2 ^ 64 mod 3) = ''10.0.0.2'' \<and>
   answers (handleDNS (example_env []) example_writer (example_query [''rebind.test.''])
      (example_config [(''rebind.test'',
         example_policy\<lparr>Respond := ''203.0.113.5'',
           Rebind := Some \<lparr>Addrs = [''10.0.0.1'', ''10.0.0.2'']\<rparr>\<rparr>)])
      example_world) =
     [[RR_A \<lparr>RR_Header.Name = ''rebind.test.'', Rrtype = TypeA, Class = ClassINET, Ttl = 0,
              Rdlength = 0\<rparr> (IPv4 203 0 113 5)]]"
proof -
  let ?pr = "example_policy\<lparr>Respond := ''203.0.113.5'',
           Rebind := Some \<lparr>Addrs = [''10.0.0.1'', ''10.0.0.2'']\<rparr>\<rparr>"
  have selr: "select_handler (example_config [(''rebind.test'', ?pr)])
      (example_query [''rebind.test.'']) = Inr (Some (''rebind.test'', ?pr))"
    by (simp add: select_handler_def example_config_def Question_example_query index_def
        key_matches_examples)
  have pr: "Redirect ?pr = []" "Respond ?pr \<noteq> []"
    by (simp_all add: example_policy_def)
  have lit: "Respond ?pr = ''203.0.113.5''" by simp
  have hr: "handleDNS (example_env []) example_writer (example_query [''rebind.test.''])
      (example_config [(''rebind.test'', ?pr)]) example_world =
      Inr (notify (example_env []) example_writer (example_query [''rebind.test.'']) ?pr
             (handleRespond (example_env []) example_writer (example_query [''rebind.test.''])
                ''203.0.113.5'' example_world))"
    unfolding handleDNS_selected[OF selr] action_respond[OF pr] lit by (simp only: sum.case)
  have d: "answers (handleDNS (example_env []) example_writer (example_query [''rebind.test.''])
      (example_config [(''rebind.test'', ?pr)]) example_world) =
     [[RR_A \<lparr>RR_Header.Name = ''rebind.test.'', Rrtype = TypeA, Class = ClassINET, Ttl = 0,
              Rdlength = 0\<rparr> (IPv4 203 0 113 5)]]"
    unfolding hr
    by (simp add: replies_notify replies_handleRespond replies_example_world Answer_respond_Msg
        Question_example_query respond_rr_def ParseIP_example example_ParseIP_def To4_IPv4)
  let ?rc = "\<lparr>Addrs = [''10.0.0.1'', ''10.0.0.2'', ''10.0.0.3'']\<rparr>"
  let ?p = "example_policy\<lparr>Rebind := Some ?rc\<rparr>"
  let ?Q = "example_query [''rebind.test.'']"
  have sel: "select_handler (example_config [(''rebind.test'', ?p)]) ?Q =
      Inr (Some (''rebind.test'', ?p))"
    by (simp add: select_handler_def example_config_def Question_example_query index_def
        key_matches_examples)
  have pol: "Redirect ?p = []" "Respond ?p = []" "Rebind ?p = Some ?rc" "Addrs ?rc \<noteq> []"
    by (simp_all add: example_policy_def)
  have lt: "(2::nat) ^ 64 < 2 ^ 64 + 1" by simp
  have z: "counter example_world ''rebind.test'' = 0"
    by (simp add: counter_def example_world_def)
  have u: "unat (counter example_world ''rebind.test'' + of_nat (2 ^ 64)) = 0"
    unfolding z by (simp add: unat_of_nat)
  from rebind_run_nth[OF sel pol lt, of "example_env []" example_writer example_world]
  have "answers (dispatches (example_env [])
      (replicate (2 ^ 64 + 1) (example_writer, ?Q, example_config [(''rebind.test'', ?p)]))
      example_world) ! (2 ^ 64) =
     Answer (respond_Msg (example_env []) ?Q
       (Addrs ?rc ! (unat (counter example_world ''rebind.test'' + of_nat (2 ^ 64)) mod
          length (Addrs ?rc))))"
    by (simp only: replies_example_world list.size add_0)
  then have a: "answers (dispatches (example_env [])
      (replicate (2 ^ 64 + 1) (example_writer, ?Q, example_config [(''rebind.test'', ?p)]))
      example_world) ! (2 ^ 64) = Answer (respond_Msg (example_env []) ?Q ''10.0.0.1'')"
    unfolding u by simp
  have b: "Answer (respond_Msg (example_env []) ?Q ''10.0.0.1'') =
     [RR_A \<lparr>RR_Header.Name = ''rebind.test.'', Rrtype = TypeA, Class = ClassINET, Ttl = 0,
             Rdlength = 0\<rparr> (IPv4 10 0 0 1)]"
    by (simp add: Answer_respond_Msg Question_example_query respond_rr_def
        ParseIP_example example_ParseIP_def To4_IPv4)
  have c: "[''10.0.0.1'', ''10.0.0.2'', ''10.0.0.3''] ! (2 ^ 64 mod 3) = ''10.0.0.2''"
    by simp
  from a b c d show ?thesis by (simp only: simp_thms)
qed

end
